theory Spec2Isabelle
  imports Complex_Main
begin

section \<open>Arrays\<close>

text \<open>
  The module \<^verbatim>\<open>selection/covtest.py\<close> works on numpy arrays of floats. A vector is a
  list of reals and a matrix the list of its rows, so \<^verbatim>\<open>X[i][j]\<close> is \<open>X ! i ! j\<close>.
  Arithmetic is the exact arithmetic of the reals: rounding, infinities and NaN
  are outside the model. A list of rows has no column count when it
  has no row, so the model covers the arrays with at least one row.
\<close>

type_synonym vec = "real list"
type_synonym mat = "real list list"

datatype error = TypeError | ValueError | IndexError | AttributeError | PrimitiveError nat

definition nrows :: "mat \<Rightarrow> nat" where
  "nrows X = length X"

definition ncols :: "mat \<Rightarrow> nat" where
  "ncols X = (case X of [] \<Rightarrow> 0 | r # _ \<Rightarrow> length r)"

text \<open>\<^verbatim>\<open>X[:,j]\<close>\<close>

definition column :: "mat \<Rightarrow> nat \<Rightarrow> vec" where
  "column X j = map (\<lambda>r. r ! j) X"

text \<open>\<^verbatim>\<open>X.T\<close>\<close>

definition XT :: "mat \<Rightarrow> mat" where
  "XT X = map (column X) [0..<ncols X]"

text \<open>\<^verbatim>\<open>np.dot\<close> of two vectors, and of a matrix and a vector.\<close>

definition dot :: "vec \<Rightarrow> vec \<Rightarrow> real" where
  "dot u v = sum_list (map2 (*) u v)"

definition mat_vec :: "mat \<Rightarrow> vec \<Rightarrow> vec" where
  "mat_vec M v = map (\<lambda>r. dot r v) M"

text \<open>
  \<^verbatim>\<open>np.argsort\<close>: the indices in ascending order of their values. Equal values
  keep the order of their indices, which is what numpy's default sort does on
  the short arrays used below (it falls back to insertion sort).
\<close>

definition argsort :: "vec \<Rightarrow> nat list" where
  "argsort v = sort_key (\<lambda>i. v ! i) [0..<length v]"

text \<open>Indexing by a boolean mask, \<^verbatim>\<open>M[flags]\<close>: the rows whose flag is set, in order.\<close>

definition boolean_index :: "bool list \<Rightarrow> 'a list \<Rightarrow> 'a list" where
  "boolean_index flags M = map snd (filter fst (zip flags M))"

text \<open>\<^verbatim>\<open>np.identity(n)\<close>\<close>

definition identity :: "nat \<Rightarrow> mat" where
  "identity n = map (\<lambda>i. map (\<lambda>j. if i = j then 1 else 0) [0..<n]) [0..<n]"

text \<open>A well-shaped pair: \<open>X\<close> is an \<open>n \<times> p\<close> array with \<open>n \<ge> 1\<close>, \<open>p \<ge> 1\<close>, and \<open>Y\<close> has length \<open>n\<close>.\<close>

definition is_array :: "mat \<Rightarrow> bool" where
  "is_array X = list_all (\<lambda>r. length r = ncols X) X"

definition well_shaped :: "mat \<Rightarrow> vec \<Rightarrow> bool" where
  "well_shaped X Y = (1 \<le> nrows X \<and> 1 \<le> ncols X \<and> is_array X \<and> length Y = nrows X)"

section \<open>The external primitives\<close>

text \<open>
  Modelled from the spec: the class \<^verbatim>\<open>constraints\<close> of \<^verbatim>\<open>selection.affine\<close>, which is
  not part of the sources at hand. It is the polyhedral constraint \<open>{z. A z \<le> b}\<close> with
  a covariance matrix; the covariance is a field that \<^verbatim>\<open>covtest\<close> scales.
\<close>

record constraints =
  linear_part :: mat
  offset :: vec
  covariance :: mat

text \<open>
  Modelled from the spec: the constructor \<^verbatim>\<open>construct(A, b, covariance?)\<close> of the
  missing class. Without a covariance the constraint gets the identity, of the
  dimension of the vectors \<open>z\<close>.
\<close>

definition constraints_init :: "mat \<Rightarrow> vec \<Rightarrow> mat option \<Rightarrow> constraints" where
  "constraints_init A b cov =
     \<lparr>linear_part = A, offset = b,
      covariance = (case cov of None \<Rightarrow> identity (ncols A) | Some C \<Rightarrow> C)\<rparr>"

text \<open>
  Modelled from the spec: membership in the region \<open>{z. A z \<le> b}\<close> of a constraint of
  the missing class, row by row.
\<close>

definition in_region :: "constraints \<Rightarrow> vec \<Rightarrow> bool" where
  "in_region con z = list_all2 (\<lambda>a b. dot a z \<le> b) (linear_part con) (offset con)"

text \<open>
  Modelled from the spec: the pivot and bounds primitives of a constraint, the
  Monte-Carlo test \<^verbatim>\<open>gibbs_test\<close>, the conditioning of a constraint and the sampler
  \<^verbatim>\<open>simulate_from_constraints\<close> live in \<^verbatim>\<open>selection.affine\<close>, which is not part of
  the sources at hand. They are parameters of the model, with the arguments that
  \<^verbatim>\<open>covtest.py\<close> passes to them; each may fail, and its failure propagates unmodified.
\<close>

record primitives =
  pivot :: "constraints \<Rightarrow> vec \<Rightarrow> vec \<Rightarrow> string \<Rightarrow> error + real"
  bounds :: "constraints \<Rightarrow> vec \<Rightarrow> vec \<Rightarrow> error + (real \<times> real \<times> real \<times> real)"
  gibbs_test :: "constraints \<Rightarrow> vec \<Rightarrow> vec \<Rightarrow> int \<Rightarrow> int \<Rightarrow> bool \<Rightarrow> error + real"
  conditional :: "constraints \<Rightarrow> mat \<Rightarrow> vec \<Rightarrow> error + constraints"
  simulate_from_constraints :: "constraints \<Rightarrow> vec \<Rightarrow> int \<Rightarrow> int \<Rightarrow> error + mat"

section \<open>covtest\<close>

text \<open>
  Lines 71 to 75: the selection event. \<^verbatim>\<open>np.dot(X.T, Y)\<close> raises when \<open>Y\<close> has not
  as many entries as \<open>X\<close> has rows, and \<^verbatim>\<open>[-1]\<close> raises on an empty array.
\<close>

definition selection_event :: "mat \<Rightarrow> vec \<Rightarrow> error + (nat \<times> real)" where
  "selection_event X Y =
     (if length Y \<noteq> nrows X then Inl ValueError
      else let Z = mat_vec (XT X) Y in
        if Z = [] then Inl IndexError
        else let idx = last (argsort (map abs Z));
                 sign = sgn (Z ! idx)
             in Inr (idx, sign))"

text \<open>Lines 77 to 81: the rows of the constraint.\<close>

definition selector_matrix :: "mat \<Rightarrow> nat \<Rightarrow> real \<Rightarrow> mat" where
  "selector_matrix X idx sign =
     (let p = ncols X;
          subset_mask = (replicate p True)[idx := False];
          XTs = boolean_index subset_mask (XT X);
          stacked = XTs @ map (map uminus) XTs @ [map ((*) (- sign)) (column X idx)]
      in map (\<lambda>row. map2 (-) row (map ((*) sign) (column X idx))) stacked)"

text \<open>\<^verbatim>\<open>con.covariance *= sigma**2\<close>\<close>

definition scale_covariance :: "real \<Rightarrow> constraints \<Rightarrow> constraints" where
  "scale_covariance c con = con\<lparr>covariance := map (map ((*) c)) (covariance con)\<rparr>"

text \<open>
  The whole function. \<open>sigma\<close> is \<open>None\<close> when the caller passes Python's \<^verbatim>\<open>None\<close>,
  and \<^verbatim>\<open>sigma**2\<close> then raises a type error. The default \<^verbatim>\<open>sigma=1\<close> is \<open>Some 1\<close>, the
  default \<^verbatim>\<open>exact=True\<close> is \<open>True\<close> and the default \<^verbatim>\<open>covariance=None\<close> is \<open>None\<close>. On the
  approximate path a scale \<open>S = 0\<close> makes numpy divide by zero, which is outside
  the model.
\<close>

definition covtest ::
  "primitives \<Rightarrow> mat \<Rightarrow> vec \<Rightarrow> real option \<Rightarrow> bool \<Rightarrow> mat option
     \<Rightarrow> error + (constraints \<times> real \<times> nat \<times> real)" where
  "covtest pr X Y sigma exact cov =
     (case selection_event X Y of
        Inl e \<Rightarrow> Inl e
      | Inr (idx, sign) \<Rightarrow>
          let selector = selector_matrix X idx sign;
              con = constraints_init selector (replicate (length selector) 0) cov
          in (case sigma of
                None \<Rightarrow> Inl TypeError
              | Some s \<Rightarrow>
                  let con = scale_covariance (s ^ 2) con;
                      eta = map ((*) sign) (column X idx)
                  in if exact then
                       (case pivot pr con eta Y ''greater'' of
                          Inl e \<Rightarrow> Inl e
                        | Inr pvalue \<Rightarrow> Inr (con, pvalue, idx, sign))
                     else
                       (case bounds pr con eta Y of
                          Inl e \<Rightarrow> Inl e
                        | Inr (L2, L1, _, S) \<Rightarrow>
                            Inr (con, exp (- L1 * (L1 - L2) / S ^ 2), idx, sign))))"

section \<open>reduced\_covtest\<close>

text \<open>Python's \<^verbatim>\<open>sigma or 1\<close>: \<^verbatim>\<open>None\<close> and \<open>0\<close> are both falsy.\<close>

definition sigma_or_1 :: "real option \<Rightarrow> real" where
  "sigma_or_1 sigma = (case sigma of None \<Rightarrow> 1 | Some s \<Rightarrow> if s = 0 then 1 else s)"

definition reduced_covtest ::
  "primitives \<Rightarrow> mat \<Rightarrow> vec \<Rightarrow> int \<Rightarrow> int \<Rightarrow> real option \<Rightarrow> mat option
     \<Rightarrow> error + (constraints \<times> real \<times> nat \<times> real)" where
  "reduced_covtest pr X Y ndraw burnin sigma cov =
     (case covtest pr X Y (Some (sigma_or_1 sigma)) True cov of
        Inl e \<Rightarrow> Inl e
      | Inr (cone, _, idx, sign) \<Rightarrow>
          (case gibbs_test pr cone Y (map ((*) sign) (column X idx)) ndraw burnin (sigma \<noteq> None) of
             Inl e \<Rightarrow> Inl e
           | Inr pvalue \<Rightarrow> Inr (cone, pvalue, idx, sign)))"

section \<open>forward\_step\<close>

subsection \<open>The store\<close>

text \<open>
  \<^verbatim>\<open>forward_step\<close> standardizes an array in place, and that array can be the one the
  caller passed. Arrays therefore live in a store, and a variable of the source
  that holds an array holds its address: \<^verbatim>\<open>RX = X\<close> copies the address, an
  expression such as \<^verbatim>\<open>X - FS.P[i](X)\<close> allocates a new array, and \<^verbatim>\<open>RX -= ...\<close>
  updates the store at the address of \<open>RX\<close>.
\<close>

record heap =
  mats :: "mat list"
  vecs :: "vec list"

definition alloc_mat :: "heap \<Rightarrow> mat \<Rightarrow> heap \<times> nat" where
  "alloc_mat h M = (h\<lparr>mats := mats h @ [M]\<rparr>, length (mats h))"

definition alloc_vec :: "heap \<Rightarrow> vec \<Rightarrow> heap \<times> nat" where
  "alloc_vec h v = (h\<lparr>vecs := vecs h @ [v]\<rparr>, length (vecs h))"

subsection \<open>The stepwise selector\<close>

text \<open>
  Modelled from the spec: a projection of the stepwise selector, whose class is not
  part of the sources at hand. It can be applied to a matrix and to a vector, and
  it has an orthonormal basis \<^verbatim>\<open>U\<close>.
\<close>

record projection =
  apply_mat :: "mat \<Rightarrow> mat"
  apply_vec :: "vec \<Rightarrow> vec"
  basis_U :: mat

text \<open>
  Modelled from the spec: the class \<^verbatim>\<open>forward_stepwise\<close> of \<^verbatim>\<open>selection.forward_step\<close>,
  which is not part of the sources at hand. The selector is built from \<open>X\<close> and \<open>Y\<close>, is
  advanced by \<^verbatim>\<open>next()\<close>, and exposes the list \<^verbatim>\<open>P\<close> of its projections, an entry of
  which may be \<^verbatim>\<open>None\<close>, and the accumulated constraint matrix \<^verbatim>\<open>A\<close>. Its state is of
  a type \<open>'fs\<close> left open. It reads the store and does not write it.
\<close>

record 'fs stepwise =
  forward_stepwise :: "heap \<Rightarrow> nat \<Rightarrow> nat \<Rightarrow> 'fs"
  fs_next :: "heap \<Rightarrow> 'fs \<Rightarrow> 'fs"
  fs_P :: "'fs \<Rightarrow> projection option list"
  fs_A :: "'fs \<Rightarrow> mat"

text \<open>Indexing a Python list: a negative index counts from the end, and an index out of range raises.\<close>

definition py_index :: "'a list \<Rightarrow> int \<Rightarrow> error + 'a" where
  "py_index xs i =
     (if 0 \<le> i \<and> i < int (length xs) then Inr (xs ! nat i)
      else if i < 0 \<and> - int (length xs) \<le> i then Inr (xs ! nat (int (length xs) + i))
      else Inl IndexError)"

subsection \<open>Array operations of the loop\<close>

text \<open>Elementwise difference of two matrices, and the matrix product \<^verbatim>\<open>np.dot(A, B)\<close>.\<close>

definition mat_sub :: "mat \<Rightarrow> mat \<Rightarrow> mat" where
  "mat_sub A B = map2 (map2 (-)) A B"

definition mat_mul :: "mat \<Rightarrow> mat \<Rightarrow> mat" where
  "mat_mul A B = map (\<lambda>r. mat_vec (XT B) r) A"

text \<open>\<^verbatim>\<open>M.mean(0)\<close> and \<^verbatim>\<open>M.std(0)\<close>: the mean and the standard deviation of each column.\<close>

definition mean0 :: "mat \<Rightarrow> vec" where
  "mean0 M = map (\<lambda>j. sum_list (column M j) / real (nrows M)) [0..<ncols M]"

definition std0 :: "mat \<Rightarrow> vec" where
  "std0 M =
     map (\<lambda>j. let c = column M j; m = sum_list c / real (nrows M)
              in sqrt (sum_list (map (\<lambda>x. \<bar>x - m\<bar> ^ 2) c) / real (nrows M)))
         [0..<ncols M]"

text \<open>
  \<^verbatim>\<open>M - v[None,:]\<close> and \<^verbatim>\<open>M / v[None,:]\<close>: the vector is broadcast over the rows.
  Where an entry of \<open>v\<close> is zero numpy divides by zero, which raises nothing and
  yields an infinity or NaN; the model has \<open>x / 0 = 0\<close> there, and no statement below
  depends on such an entry.
\<close>

definition sub_row :: "mat \<Rightarrow> vec \<Rightarrow> mat" where
  "sub_row M v = map (\<lambda>r. map2 (-) r v) M"

definition div_row :: "mat \<Rightarrow> vec \<Rightarrow> mat" where
  "div_row M v = map (\<lambda>r. map2 (/) r v) M"

text \<open>
  The mean of an array of booleans: the fraction of its entries that are true (of
  an empty array numpy's mean is NaN, the model's is \<open>0\<close>).
\<close>

definition mean_bool :: "bool list \<Rightarrow> real" where
  "mean_bool bs = real (length (filter id bs)) / real (length bs)"

subsection \<open>One iteration\<close>

text \<open>
  Lines 228 to 235. With a projection, \<open>RX\<close> and \<open>RY\<close> are new arrays; without one they
  are \<open>X\<close> and \<open>Y\<close> themselves.
\<close>

definition residualize ::
  "heap \<Rightarrow> nat \<Rightarrow> nat \<Rightarrow> nat \<Rightarrow> projection option \<Rightarrow> heap \<times> nat \<times> nat \<times> mat option" where
  "residualize h X Y n Pi =
     (case Pi of
        Some P \<Rightarrow>
          let (h, RX) = alloc_mat h (mat_sub (mats h ! X) (apply_mat P (mats h ! X)));
              (h, RY) = alloc_vec h (map2 (-) (vecs h ! Y) (apply_vec P (vecs h ! Y)));
              cov = mat_sub (identity n) (mat_mul (basis_U P) (XT (basis_U P)))
          in (h, RX, RY, Some cov)
      | None \<Rightarrow> (h, X, Y, None))"

text \<open>Lines 236 and 237: the two in-place updates of \<open>RX\<close>.\<close>

definition standardize :: "heap \<Rightarrow> nat \<Rightarrow> heap" where
  "standardize h RX =
     (let h = h\<lparr>mats := (mats h)[RX := sub_row (mats h ! RX) (mean0 (mats h ! RX))]\<rparr>;
          h = h\<lparr>mats := (mats h)[RX := div_row (mats h ! RX) (std0 (mats h ! RX))]\<rparr>
      in h)"

text \<open>Lines 246 to 262: the Monte-Carlo p-value of the step.\<close>

definition reduced_step ::
  "primitives \<Rightarrow> 'fs stepwise \<Rightarrow> 'fs \<Rightarrow> nat \<Rightarrow> vec \<Rightarrow> vec \<Rightarrow> real option \<Rightarrow> int \<Rightarrow> int
     \<Rightarrow> error + real" where
  "reduced_step pr sel FS i Y eta sigma ndraw burnin =
     (let Acon = constraints_init (fs_A sel FS) (replicate (nrows (fs_A sel FS)) 0) None
      in case (if 0 < i then
                 (case py_index (fs_P sel FS) (- 2) of
                    Inl e \<Rightarrow> Inl e
                  | Inr None \<Rightarrow> Inl AttributeError
                  | Inr (Some P) \<Rightarrow>
                      let U = XT (basis_U P);
                          Uy = mat_vec U Y
                      in conditional pr Acon U Uy)
               else Inr Acon) of
           Inl e \<Rightarrow> Inl e
         | Inr Acon \<Rightarrow>
             (case sigma of
                None \<Rightarrow> Inl TypeError
              | Some s \<Rightarrow>
                  let Acon = scale_covariance (s ^ 2) Acon
                  in (case simulate_from_constraints pr Acon Y ndraw burnin of
                        Inl e \<Rightarrow> Inl e
                      | Inr Z \<Rightarrow>
                          let observed = sum_list (map2 (*) eta Y);
                              reduced_pval = mean_bool (map (\<lambda>t. observed \<le> t) (mat_vec Z eta))
                          in Inr reduced_pval)))"

text \<open>
  The body of the loop, lines 225 to 262. Its state is the store, the selector and
  the two lists of p-values; an error leaves the store as it is at that point.
\<close>

definition fs_iteration ::
  "primitives \<Rightarrow> 'fs stepwise \<Rightarrow> nat \<Rightarrow> nat \<Rightarrow> nat \<Rightarrow> real option \<Rightarrow> bool \<Rightarrow> int \<Rightarrow> int
     \<Rightarrow> nat \<Rightarrow> heap \<Rightarrow> 'fs \<times> real list \<times> real list
     \<Rightarrow> heap \<times> (error + 'fs \<times> real list \<times> real list)" where
  "fs_iteration pr sel X Y n sigma exact burnin ndraw i h st =
     (case st of (FS, covtest_P, reduced_P) \<Rightarrow>
        let FS = fs_next sel h FS
        in case py_index (fs_P sel FS) (int i) of
             Inl e \<Rightarrow> (h, Inl e)
           | Inr Pi \<Rightarrow>
               (case residualize h X Y n Pi of (h, RX, RY, cov) \<Rightarrow>
                  let h = standardize h RX
                  in case covtest pr (mats h ! RX) (vecs h ! RY) sigma exact cov of
                       Inl e \<Rightarrow> (h, Inl e)
                     | Inr (con, pval, idx, sign) \<Rightarrow>
                         let covtest_P = covtest_P @ [pval];
                             eta = map ((*) sign) (column (mats h ! RX) idx)
                         in case reduced_step pr sel FS i (vecs h ! Y) eta sigma ndraw burnin of
                              Inl e \<Rightarrow> (h, Inl e)
                            | Inr reduced_pval \<Rightarrow>
                                (h, Inr (FS, covtest_P, reduced_P @ [reduced_pval]))))"

subsection \<open>The loop and the function\<close>

text \<open>\<^verbatim>\<open>for i in range(nstep)\<close>: the body runs for each index in turn and an error ends the run.\<close>

fun fs_loop ::
  "primitives \<Rightarrow> 'fs stepwise \<Rightarrow> nat \<Rightarrow> nat \<Rightarrow> nat \<Rightarrow> real option \<Rightarrow> bool \<Rightarrow> int \<Rightarrow> int
     \<Rightarrow> nat list \<Rightarrow> heap \<Rightarrow> 'fs \<times> real list \<times> real list
     \<Rightarrow> heap \<times> (error + 'fs \<times> real list \<times> real list)" where
  "fs_loop pr sel X Y n sigma exact burnin ndraw [] h st = (h, Inr st)"
| "fs_loop pr sel X Y n sigma exact burnin ndraw (i # rest) h st =
     (case fs_iteration pr sel X Y n sigma exact burnin ndraw i h st of
        (h, Inl e) \<Rightarrow> (h, Inl e)
      | (h, Inr st) \<Rightarrow> fs_loop pr sel X Y n sigma exact burnin ndraw rest h st)"

text \<open>
  \<open>X\<close> and \<open>Y\<close> are the addresses of the caller's arrays. The result is the store
  after the call and either the error raised or the two lists of p-values.
\<close>

definition forward_step ::
  "primitives \<Rightarrow> 'fs stepwise \<Rightarrow> heap \<Rightarrow> nat \<Rightarrow> nat \<Rightarrow> real option \<Rightarrow> int \<Rightarrow> bool \<Rightarrow> int \<Rightarrow> int
     \<Rightarrow> heap \<times> (error + real list \<times> real list)" where
  "forward_step pr sel h X Y sigma nstep exact burnin ndraw =
     (let n = nrows (mats h ! X);
          FS = forward_stepwise sel h X Y
      in case fs_loop pr sel X Y n sigma exact burnin ndraw [0..<nat nstep] h (FS, [], []) of
           (h, Inl e) \<Rightarrow> (h, Inl e)
         | (h, Inr (FS, covtest_P, reduced_P)) \<Rightarrow> (h, Inr (covtest_P, reduced_P)))"

section \<open>Auxiliary notions for the statements\<close>

text \<open>
  An instance of the external primitives on which the model can be run: a pivot
  and a Monte-Carlo test that return fixed probabilities, bounds that bracket the
  observed statistic \<open>eta \<cdot> y\<close> with unit scale, a conditioning that returns the
  constraint as it is and a sampler that returns the observed vector as its only draw.
\<close>

definition example_primitives :: primitives where
  "example_primitives =
     \<lparr>pivot = (\<lambda>con eta y alt. Inr (1 / 2)),
      bounds = (\<lambda>con eta y. Inr (dot eta y - 1, dot eta y, dot eta y + 1, 1)),
      gibbs_test = (\<lambda>con y eta ndraw burnin known. Inr (1 / 4)),
      conditional = (\<lambda>con U Uy. Inr con),
      simulate_from_constraints = (\<lambda>con y ndraw burnin. Inr [y])\<rparr>"

text \<open>
  Permuting the columns of a design, \<^verbatim>\<open>X[:, perm]\<close>: column \<open>j\<close> of the result is
  column \<open>perm ! j\<close> of \<open>X\<close>. A permutation of \<open>p\<close> columns lists \<open>0, \<dots>, p - 1\<close> in some order.
\<close>

definition permute_columns :: "nat list \<Rightarrow> mat \<Rightarrow> mat" where
  "permute_columns perm X = map (\<lambda>r. map (\<lambda>j. r ! j) perm) X"

definition is_permutation :: "nat list \<Rightarrow> nat \<Rightarrow> bool" where
  "is_permutation perm p = (sort perm = [0..<p])"

text \<open>
  Modelled from the spec: the contract of the bounds primitive, which is not part of
  the sources at hand. It returns \<open>(L2, L1, upper, S)\<close> where the truncation limits
  bracket the observed statistic, \<open>L2 \<le> eta \<cdot> y \<le> L1\<close>, and \<open>S\<close> is a scale; a
  degenerate scale is a failure of the primitive, so a scale that is returned is not zero.
\<close>

definition bounds_contract :: "primitives \<Rightarrow> bool" where
  "bounds_contract pr =
     (\<forall>con eta y L2 L1 upper S.
        bounds pr con eta y = Inr (L2, L1, upper, S) \<longrightarrow>
          L2 \<le> dot eta y \<and> dot eta y \<le> L1 \<and> S \<noteq> 0)"

text \<open>The matrix that the two in-place updates of the standardization leave behind.\<close>

definition standardized :: "mat \<Rightarrow> mat" where
  "standardized M = div_row (sub_row M (mean0 M)) (std0 (sub_row M (mean0 M)))"

text \<open>
  Modelled from the spec: the contract of a projection of the missing selector. It
  returns an array of the shape of its argument.
\<close>

definition shape_preserving :: "projection \<Rightarrow> bool" where
  "shape_preserving P =
     ((\<forall>M. nrows (apply_mat P M) = nrows M \<and> ncols (apply_mat P M) = ncols M)
      \<and> (\<forall>v. length (apply_vec P v) = length v))"

text \<open>
  Modelled from the spec: the contract of the missing stepwise selector. Before any
  selection there is no projection, so the list of projections of a new selector is
  \<^verbatim>\<open>[None]\<close>; advancing the selector appends the projection onto the variables
  selected so far.
\<close>

definition selector_contract :: "'fs stepwise \<Rightarrow> bool" where
  "selector_contract sel =
     ((\<forall>h X Y. fs_P sel (forward_stepwise sel h X Y) = [None])
      \<and> (\<forall>h FS. \<exists>P. fs_P sel (fs_next sel h FS) = fs_P sel FS @ [Some P] \<and> shape_preserving P))"

text \<open>The case where no external primitive fails: each returns a value on every input.\<close>

definition primitives_succeed :: "primitives \<Rightarrow> bool" where
  "primitives_succeed pr =
     ((\<forall>con eta y alt. \<exists>p. pivot pr con eta y alt = Inr p)
      \<and> (\<forall>con eta y. \<exists>r. bounds pr con eta y = Inr r)
      \<and> (\<forall>con U Uy. \<exists>c. conditional pr con U Uy = Inr c)
      \<and> (\<forall>con y ndraw burnin. \<exists>Z. simulate_from_constraints pr con y ndraw burnin = Inr Z))"

text \<open>
  What holds of the store and the selector before iteration \<open>i\<close> of the loop: the
  addresses \<open>X\<close> and \<open>Y\<close> are valid, the design has \<open>n\<close> rows and at least one column,
  the response has length \<open>n\<close>, and the selector holds the absent projection followed
  by \<open>i\<close> shape-preserving ones.
\<close>

definition loop_invariant :: "'fs stepwise \<Rightarrow> nat \<Rightarrow> nat \<Rightarrow> nat \<Rightarrow> nat \<Rightarrow> heap \<Rightarrow> 'fs \<Rightarrow> bool" where
  "loop_invariant sel X Y n i h FS =
     (X < length (mats h) \<and> Y < length (vecs h)
      \<and> nrows (mats h ! X) = n \<and> 1 \<le> ncols (mats h ! X) \<and> length (vecs h ! Y) = n
      \<and> (\<exists>Ps. fs_P sel FS = None # map Some Ps \<and> length Ps = i
               \<and> (\<forall>P\<in>set Ps. shape_preserving P)))"

text \<open>
  An instance of the selector on which the model can be run. Its state counts the
  selections made; each selection adds the projection onto the first coordinate
  of a response of length two, and the accumulated constraint matrix has one row.
\<close>

definition example_projection :: projection where
  "example_projection =
     \<lparr>apply_mat = (\<lambda>M. case M of [] \<Rightarrow> [] | r # rest \<Rightarrow> r # map (map (\<lambda>x. 0)) rest),
      apply_vec = (\<lambda>v. case v of [] \<Rightarrow> [] | x # rest \<Rightarrow> x # map (\<lambda>x. 0) rest),
      basis_U = [[1], [0]]\<rparr>"

definition example_selector :: "nat stepwise" where
  "example_selector =
     \<lparr>forward_stepwise = (\<lambda>h X Y. 0),
      fs_next = (\<lambda>h k. Suc k),
      fs_P = (\<lambda>k. None # replicate k (Some example_projection)),
      fs_A = (\<lambda>k. [[1, 1]])\<rparr>"

text \<open>The unfoldings that evaluate the model on a concrete input.\<close>

lemmas model_defs [no_atp] =
  nrows_def ncols_def column_def XT_def dot_def mat_vec_def argsort_def boolean_index_def
  identity_def is_array_def well_shaped_def constraints_init_def in_region_def
  selection_event_def selector_matrix_def scale_covariance_def covtest_def
  sigma_or_1_def reduced_covtest_def example_primitives_def
  permute_columns_def is_permutation_def
  alloc_mat_def alloc_vec_def py_index_def mat_sub_def mat_mul_def mean0_def std0_def
  sub_row_def div_row_def mean_bool_def residualize_def standardize_def reduced_step_def
  fs_iteration_def forward_step_def standardized_def example_projection_def
  example_selector_def

section \<open>Facts about the arrays and the selection\<close>

lemma argsort_set: "set (argsort v) = {0..<length v}"
  by (simp add: argsort_def)

lemma argsort_last_lt: "v \<noteq> [] \<Longrightarrow> last (argsort v) < length v"
proof -
  assume "v \<noteq> []"
  then have "argsort v \<noteq> []" using argsort_set [of v] by (cases "argsort v") auto
  then have "last (argsort v) \<in> set (argsort v)" by (rule last_in_set)
  then show ?thesis by (simp add: argsort_set)
qed

lemma sorted_le_last: "sorted xs \<Longrightarrow> x \<in> set xs \<Longrightarrow> x \<le> last xs"
  by (induction xs) (auto split: if_splits)

lemma argsort_last_max:
  assumes "j < length v"
  shows "v ! j \<le> v ! last (argsort v)"
proof -
  let ?xs = "argsort v"
  have ne: "?xs \<noteq> []" using assms argsort_set [of v] by (cases "argsort v") auto
  have "sorted (map (\<lambda>i. v ! i) ?xs)" by (simp add: argsort_def)
  moreover have "v ! j \<in> set (map (\<lambda>i. v ! i) ?xs)" using assms by (simp add: argsort_set)
  ultimately have "v ! j \<le> last (map (\<lambda>i. v ! i) ?xs)" by (rule sorted_le_last)
  then show ?thesis using ne by (simp add: last_map)
qed

lemma dot_Nil [simp]: "dot [] v = 0" "dot u [] = 0"
  by (simp_all add: dot_def)

lemma dot_Cons [simp]: "dot (a # u) (b # v) = a * b + dot u v"
  by (simp add: dot_def)

lemma dot_sub: "length a = length b \<Longrightarrow> dot (map2 (-) a b) z = dot a z - dot b z"
proof (induction a b arbitrary: z rule: list_induct2)
  case Nil
  then show ?case by simp
next
  case (Cons x xs y ys)
  then show ?case by (cases z) (simp_all add: algebra_simps)
qed

lemma dot_uminus: "dot (map uminus a) z = - dot a z"
proof (induction a arbitrary: z)
  case Nil
  then show ?case by simp
next
  case (Cons x xs)
  then show ?case by (cases z) simp_all
qed

lemma dot_scale: "dot (map ((*) c) a) z = c * dot a z"
proof (induction a arbitrary: z)
  case Nil
  then show ?case by simp
next
  case (Cons x xs)
  then show ?case by (cases z) (simp_all add: algebra_simps)
qed

lemma masked_rows_set:
  "length bs = length cs \<Longrightarrow>
   set (boolean_index bs cs) = {cs ! k | k. k < length cs \<and> bs ! k}"
  unfolding boolean_index_def by (auto simp: in_set_zip image_iff) force+

lemma XT_length [simp]: "length (XT X) = ncols X"
  by (simp add: XT_def)

lemma XT_nth [simp]: "j < ncols X \<Longrightarrow> XT X ! j = column X j"
  by (simp add: XT_def)

lemma column_length [simp]: "length (column X j) = nrows X"
  by (simp add: column_def nrows_def)

lemma mat_vec_XT_nth: "j < ncols X \<Longrightarrow> mat_vec (XT X) Y ! j = dot (column X j) Y"
  by (simp add: mat_vec_def)

lemma mat_vec_length [simp]: "length (mat_vec M v) = length M"
  by (simp add: mat_vec_def)

lemma other_columns:
  "set (boolean_index ((replicate (ncols X) True)[idx := False]) (XT X))
     = {column X j | j. j < ncols X \<and> j \<noteq> idx}"
proof -
  let ?bs = "(replicate (ncols X) True)[idx := False]"
  have "set (boolean_index ?bs (XT X)) = {XT X ! k | k. k < length (XT X) \<and> ?bs ! k}"
    by (rule masked_rows_set) simp
  also have "\<dots> = {column X j | j. j < ncols X \<and> j \<noteq> idx}"
  proof (rule Collect_cong)
    fix x
    have flag: "?bs ! k = (k \<noteq> idx)" if "k < ncols X" for k
      using that by (cases "idx < ncols X") (auto simp: nth_list_update)
    show "(\<exists>k. x = XT X ! k \<and> k < length (XT X) \<and> ?bs ! k)
           = (\<exists>j. x = column X j \<and> j < ncols X \<and> j \<noteq> idx)"
      by (metis XT_length XT_nth flag)
  qed
  finally show ?thesis .
qed


lemma selection_eventD:
  assumes "selection_event X Y = Inr (idx, sign)"
  shows "length Y = nrows X" and "idx < ncols X"
    and "sign = sgn (dot (column X idx) Y)"
    and "\<forall>j<ncols X. \<bar>dot (column X j) Y\<bar> \<le> \<bar>dot (column X idx) Y\<bar>"
proof -
  let ?Z = "mat_vec (XT X) Y"
  from assms show len: "length Y = nrows X"
    by (auto simp: selection_event_def Let_def split: if_splits)
  from assms have ne: "?Z \<noteq> []"
    by (auto simp: selection_event_def Let_def split: if_splits)
  from assms len ne have idx: "idx = last (argsort (map abs ?Z))" and sign: "sign = sgn (?Z ! idx)"
    by (auto simp: selection_event_def Let_def)
  from ne have "last (argsort (map abs ?Z)) < length (map abs ?Z)"
    by (intro argsort_last_lt) simp
  with idx show lt: "idx < ncols X" by simp
  from sign lt show "sign = sgn (dot (column X idx) Y)" by (simp add: mat_vec_XT_nth)
  show "\<forall>j<ncols X. \<bar>dot (column X j) Y\<bar> \<le> \<bar>dot (column X idx) Y\<bar>"
  proof (intro allI impI)
    fix j assume j: "j < ncols X"
    then have "map abs ?Z ! j \<le> map abs ?Z ! last (argsort (map abs ?Z))"
      by (intro argsort_last_max) simp
    with j lt idx show "\<bar>dot (column X j) Y\<bar> \<le> \<bar>dot (column X idx) Y\<bar>"
      by (simp add: mat_vec_XT_nth)
  qed
qed

lemma selection_event_returns:
  assumes "length Y = nrows X" and "1 \<le> ncols X"
  shows "\<exists>idx sign. selection_event X Y = Inr (idx, sign)"
proof -
  from assms(2) have "mat_vec (XT X) Y \<noteq> []"
    by (auto simp: mat_vec_def XT_def)
  with assms(1) show ?thesis by (simp add: selection_event_def Let_def)
qed

lemma selection_event_unique:
  assumes len: "length Y = nrows X" and j: "j < ncols X"
    and strict: "\<forall>k<ncols X. k \<noteq> j \<longrightarrow> \<bar>dot (column X k) Y\<bar> < \<bar>dot (column X j) Y\<bar>"
  shows "selection_event X Y = Inr (j, sgn (dot (column X j) Y))"
proof -
  from len j obtain idx sign where ev: "selection_event X Y = Inr (idx, sign)"
    using selection_event_returns [of Y X] by auto
  note D = selection_eventD [OF ev]
  have "idx = j"
  proof (rule ccontr)
    assume "idx \<noteq> j"
    with strict D(2) have "\<bar>dot (column X idx) Y\<bar> < \<bar>dot (column X j) Y\<bar>" by simp
    moreover from D(4) j have "\<bar>dot (column X j) Y\<bar> \<le> \<bar>dot (column X idx) Y\<bar>" by simp
    ultimately show False by simp
  qed
  with ev D(3) show ?thesis by simp
qed

lemma covtestD:
  assumes "covtest pr X Y sigma exact cov = Inr (con, pvalue, idx, sign)"
  shows "selection_event X Y = Inr (idx, sign)"
    and "linear_part con = selector_matrix X idx sign"
    and "offset con = replicate (length (selector_matrix X idx sign)) 0"
  using assms
  by (auto simp: covtest_def Let_def scale_covariance_def constraints_init_def
           split: sum.splits option.splits prod.splits if_splits)

lemma in_region_zero_offset:
  assumes "offset con = replicate (length (linear_part con)) 0"
  shows "in_region con z \<longleftrightarrow> (\<forall>a\<in>set (linear_part con). dot a z \<le> 0)"
proof -
  have "list_all2 (\<lambda>a b. dot a z \<le> b) A (replicate (length A) 0) \<longleftrightarrow> (\<forall>a\<in>set A. dot a z \<le> 0)" for A
    by (induction A) simp_all
  with assms show ?thesis by (simp add: in_region_def)
qed

lemma selector_region:
  "(\<forall>a\<in>set (selector_matrix X idx sign). dot a z \<le> 0) \<longleftrightarrow>
     (\<forall>j<ncols X. j \<noteq> idx \<longrightarrow>
        dot (column X j) z - sign * dot (column X idx) z \<le> 0
        \<and> - dot (column X j) z - sign * dot (column X idx) z \<le> 0)
     \<and> - sign * dot (column X idx) z - sign * dot (column X idx) z \<le> 0"
proof -
  let ?xi = "map ((*) sign) (column X idx)"
  let ?f = "\<lambda>row. map2 (-) row ?xi"
  let ?others = "boolean_index ((replicate (ncols X) True)[idx := False]) (XT X)"
  let ?lastrow = "map ((*) (- sign)) (column X idx)"
  have A: "selector_matrix X idx sign = map ?f (?others @ map (map uminus) ?others @ [?lastrow])"
    by (simp add: selector_matrix_def Let_def)
  have mem: "c \<in> set ?others \<longleftrightarrow> (\<exists>j<ncols X. j \<noteq> idx \<and> c = column X j)" for c
    unfolding other_columns by auto
  have "(\<forall>a\<in>set (selector_matrix X idx sign). dot a z \<le> 0) \<longleftrightarrow>
          (\<forall>c\<in>set ?others. dot (?f c) z \<le> 0 \<and> dot (?f (map uminus c)) z \<le> 0)
          \<and> dot (?f ?lastrow) z \<le> 0"
    unfolding A by (simp del: set_map map_map add: ball_Un) (auto simp del: map_map)
  also have "\<dots> \<longleftrightarrow>
          (\<forall>j<ncols X. j \<noteq> idx \<longrightarrow>
             dot (?f (column X j)) z \<le> 0 \<and> dot (?f (map uminus (column X j))) z \<le> 0)
          \<and> dot (?f ?lastrow) z \<le> 0"
    unfolding Ball_def mem by auto
  also have "\<dots> \<longleftrightarrow>
     (\<forall>j<ncols X. j \<noteq> idx \<longrightarrow>
        dot (column X j) z - sign * dot (column X idx) z \<le> 0
        \<and> - dot (column X j) z - sign * dot (column X idx) z \<le> 0)
     \<and> - sign * dot (column X idx) z - sign * dot (column X idx) z \<le> 0"
    by (simp add: dot_sub dot_uminus dot_scale)
  finally show ?thesis .
qed

lemma permute_columns_nrows [simp]: "nrows (permute_columns perm X) = nrows X"
  by (simp add: permute_columns_def nrows_def)

lemma permute_columns_ncols: "X \<noteq> [] \<Longrightarrow> ncols (permute_columns perm X) = length perm"
  by (cases X) (simp_all add: permute_columns_def ncols_def)

lemma permute_columns_column:
  "j < length perm \<Longrightarrow> column (permute_columns perm X) j = column X (perm ! j)"
  by (simp add: permute_columns_def column_def)

lemma is_permutationD:
  assumes "is_permutation perm p"
  shows "length perm = p" and "set perm = {0..<p}" and "distinct perm"
proof -
  from assms have s: "sort perm = [0..<p]" by (simp add: is_permutation_def)
  from s show "length perm = p" by (metis length_sort length_upt minus_nat.diff_0)
  from s show "set perm = {0..<p}" by (metis set_sort set_upt)
  from s show "distinct perm" by (metis distinct_sort distinct_upt)
qed

text \<open>
  The choice among columns that tie for the largest magnitude is made by position.
  No other rule would make the choice independent of the order of the other
  columns: whatever a rule \<open>pick\<close> chooses on the three vectors of magnitudes with two
  entries \<open>1\<close> and one entry \<open>0\<close>, some permutation that leaves the chosen position in
  place changes the choice.
\<close>

lemma three_column_permutations:
  "is_permutation [0, 2, 1] 3" "is_permutation [2, 1, 0] 3" "is_permutation [1, 0, 2] 3"
  by (simp_all add: is_permutation_def upt_rec)

lemma every_tie_break_depends_on_position:
  fixes pick :: "vec \<Rightarrow> nat"
  assumes a: "pick [1, 1, 0] = 0 \<or> pick [1, 1, 0] = 1"
    and b: "pick [0, 1, 1] = 1 \<or> pick [0, 1, 1] = 2"
    and c: "pick [1, 0, 1] = 0 \<or> pick [1, 0, 1] = 2"
  shows "\<exists>v perm. is_permutation perm 3 \<and> perm ! pick v = pick v
           \<and> (v = [1, 1, 0] \<or> v = [0, 1, 1] \<or> v = [1, 0, 1])
           \<and> pick (map (\<lambda>j. v ! j) perm) \<noteq> pick v"
proof -
  note P = three_column_permutations
  consider (a0c2) "pick [1, 1, 0] = 0" "pick [1, 0, 1] = 2"
    | (c0b1) "pick [1, 1, 0] = 0" "pick [1, 0, 1] = 0" "pick [0, 1, 1] = 1"
    | (c0b2) "pick [1, 0, 1] = 0" "pick [0, 1, 1] = 2"
    | (a1b2) "pick [1, 1, 0] = 1" "pick [0, 1, 1] = 2"
    | (b1c0) "pick [1, 1, 0] = 1" "pick [1, 0, 1] = 0"
    | (b1c2) "pick [0, 1, 1] = 1" "pick [1, 0, 1] = 2"
    using a b c by auto
  then show ?thesis
  proof cases
    case a0c2
    then show ?thesis
      using P(1) by (intro exI [of _ "[1, 1, 0]"] exI [of _ "[0, 2, 1]"]) simp
  next
    case c0b1
    then show ?thesis
      using P(2) by (intro exI [of _ "[0, 1, 1]"] exI [of _ "[2, 1, 0]"]) simp
  next
    case c0b2
    then show ?thesis
      using P(3) by (intro exI [of _ "[0, 1, 1]"] exI [of _ "[1, 0, 2]"]) simp
  next
    case a1b2
    then show ?thesis
      using P(2) by (intro exI [of _ "[1, 1, 0]"] exI [of _ "[2, 1, 0]"]) simp
  next
    case b1c0
    then show ?thesis
      using P(1) by (intro exI [of _ "[1, 0, 1]"] exI [of _ "[0, 2, 1]"]) simp
  next
    case b1c2
    then show ?thesis
      using P(3) by (intro exI [of _ "[1, 0, 1]"] exI [of _ "[1, 0, 2]"]) simp
  qed
qed

section \<open>Facts about the loop of forward\_step\<close>

lemma sub_row_shape [simp]:
  "nrows (sub_row M v) = nrows M" "ncols (sub_row M v) = min (ncols M) (length v)"
  by (cases M; simp add: sub_row_def nrows_def ncols_def)+

lemma div_row_shape [simp]:
  "nrows (div_row M v) = nrows M" "ncols (div_row M v) = min (ncols M) (length v)"
  by (cases M; simp add: div_row_def nrows_def ncols_def)+

lemma mean0_length [simp]: "length (mean0 M) = ncols M"
  by (simp add: mean0_def)

lemma std0_length [simp]: "length (std0 M) = ncols M"
  by (simp add: std0_def)

lemma standardized_shape [simp]:
  "nrows (standardized M) = nrows M" "ncols (standardized M) = ncols M"
  by (simp_all add: standardized_def)

lemma mat_sub_shape:
  "nrows (mat_sub A B) = min (nrows A) (nrows B)"
  "ncols (mat_sub A B) = min (ncols A) (ncols B)"
  by (cases A; cases B; simp add: mat_sub_def nrows_def ncols_def)+

lemma standardize_valid:
  assumes "a < length (mats h)"
  shows "standardize h a = h\<lparr>mats := (mats h)[a := standardized (mats h ! a)]\<rparr>"
  using assms by (simp add: standardize_def standardized_def Let_def)

lemma standardize_vecs [simp]: "vecs (standardize h a) = vecs h"
  by (simp add: standardize_def Let_def)

lemma standardize_length [simp]: "length (mats (standardize h a)) = length (mats h)"
  by (simp add: standardize_def Let_def)

lemma standardize_other:
  "b \<noteq> a \<Longrightarrow> mats (standardize h a) ! b = mats h ! b"
  by (simp add: standardize_def Let_def)

lemma standardize_same:
  "a < length (mats h) \<Longrightarrow> mats (standardize h a) ! a = standardized (mats h ! a)"
  by (simp add: standardize_valid)

lemma residualize_None [simp]: "residualize h X Y n None = (h, X, Y, None)"
  by (simp add: residualize_def)

lemma residualize_Some:
  "residualize h X Y n (Some P) =
     (h\<lparr>mats := mats h @ [mat_sub (mats h ! X) (apply_mat P (mats h ! X))],
        vecs := vecs h @ [map2 (-) (vecs h ! Y) (apply_vec P (vecs h ! Y))]\<rparr>,
      length (mats h), length (vecs h),
      Some (mat_sub (identity n) (mat_mul (basis_U P) (XT (basis_U P)))))"
  by (simp add: residualize_def alloc_mat_def alloc_vec_def)

lemma py_index_nonneg:
  "i < length xs \<Longrightarrow> py_index xs (int i) = Inr (xs ! i)"
  by (simp add: py_index_def)

lemma py_index_penultimate:
  "py_index (xs @ [x, y]) (- 2) = Inr x"
  by (simp add: py_index_def nth_append)

lemma covtest_returns:
  assumes "length Y = nrows X" and "1 \<le> ncols X" and "primitives_succeed pr"
  shows "\<exists>con pval idx sign. covtest pr X Y (Some s) exact cov = Inr (con, pval, idx, sign)"
proof -
  from assms(1,2) obtain idx sign where ev: "selection_event X Y = Inr (idx, sign)"
    using selection_event_returns by blast
  let ?con = "scale_covariance (s ^ 2)
      (constraints_init (selector_matrix X idx sign)
         (replicate (length (selector_matrix X idx sign)) 0) cov)"
  let ?eta = "map ((*) sign) (column X idx)"
  from assms(3) obtain p where p: "pivot pr ?con ?eta Y ''greater'' = Inr p"
    unfolding primitives_succeed_def by blast
  from assms(3) obtain r where r: "bounds pr ?con ?eta Y = Inr r"
    unfolding primitives_succeed_def by blast
  show ?thesis
  proof (cases exact)
    case True
    with ev p show ?thesis by (simp add: covtest_def Let_def)
  next
    case False
    with ev r show ?thesis by (cases r) (simp add: covtest_def Let_def)
  qed
qed

lemma covtest_None_sigma:
  assumes "length Y = nrows X" and "1 \<le> ncols X"
  shows "covtest pr X Y None exact cov = Inl TypeError"
proof -
  from assms obtain idx sign where "selection_event X Y = Inr (idx, sign)"
    using selection_event_returns by blast
  then show ?thesis by (simp add: covtest_def Let_def)
qed

lemma reduced_step_returns:
  assumes "primitives_succeed pr"
    and "0 < i \<Longrightarrow> \<exists>P. py_index (fs_P sel FS) (- 2) = Inr (Some P)"
  shows "\<exists>q. reduced_step pr sel FS i Y eta (Some s) ndraw burnin = Inr q"
proof -
  let ?Acon = "constraints_init (fs_A sel FS) (replicate (nrows (fs_A sel FS)) 0) None"
  have "\<exists>c. (if 0 < i then
                 (case py_index (fs_P sel FS) (- 2) of
                    Inl e \<Rightarrow> Inl e
                  | Inr None \<Rightarrow> Inl AttributeError
                  | Inr (Some P) \<Rightarrow>
                      let U = XT (basis_U P); Uy = mat_vec U Y
                      in conditional pr ?Acon U Uy)
               else Inr ?Acon) = Inr c"
  proof (cases "0 < i")
    case True
    with assms(2) obtain P where "py_index (fs_P sel FS) (- 2) = Inr (Some P)" by blast
    moreover from assms(1) obtain c
      where "conditional pr ?Acon (XT (basis_U P)) (mat_vec (XT (basis_U P)) Y) = Inr c"
      unfolding primitives_succeed_def by blast
    ultimately show ?thesis using True by (simp add: Let_def)
  next
    case False
    then show ?thesis by simp
  qed
  then obtain c where c: "(if 0 < i then
                 (case py_index (fs_P sel FS) (- 2) of
                    Inl e \<Rightarrow> Inl e
                  | Inr None \<Rightarrow> Inl AttributeError
                  | Inr (Some P) \<Rightarrow>
                      let U = XT (basis_U P); Uy = mat_vec U Y
                      in conditional pr ?Acon U Uy)
               else Inr ?Acon) = Inr c" ..
  from assms(1) obtain Z
    where "simulate_from_constraints pr (scale_covariance (s ^ 2) c) Y ndraw burnin = Inr Z"
    unfolding primitives_succeed_def by blast
  with c show ?thesis
    unfolding reduced_step_def Let_def by simp
qed

lemma fs_iteration_returns:
  assumes "py_index (fs_P sel (fs_next sel h FS)) (int i) = Inr Pi"
    and "residualize h X Y n Pi = (h1, RX, RY, cov)"
    and "covtest pr (mats (standardize h1 RX) ! RX) (vecs (standardize h1 RX) ! RY) sigma exact cov
           = Inr (con, pval, idx, sign)"
    and "reduced_step pr sel (fs_next sel h FS) i (vecs (standardize h1 RX) ! Y)
           (map ((*) sign) (column (mats (standardize h1 RX) ! RX) idx)) sigma ndraw burnin = Inr q"
  shows "fs_iteration pr sel X Y n sigma exact burnin ndraw i h (FS, cP, rP)
           = (standardize h1 RX, Inr (fs_next sel h FS, cP @ [pval], rP @ [q]))"
  using assms by (simp add: fs_iteration_def Let_def)

lemma fs_iteration_covtest_fails:
  assumes "py_index (fs_P sel (fs_next sel h FS)) (int i) = Inr Pi"
    and "residualize h X Y n Pi = (h1, RX, RY, cov)"
    and "covtest pr (mats (standardize h1 RX) ! RX) (vecs (standardize h1 RX) ! RY) sigma exact cov
           = Inl e"
  shows "fs_iteration pr sel X Y n sigma exact burnin ndraw i h (FS, cP, rP)
           = (standardize h1 RX, Inl e)"
  using assms by (simp add: fs_iteration_def Let_def)

lemma fs_iteration_heap:
  "fst (fs_iteration pr sel X Y n sigma exact burnin ndraw i h st) = h
   \<or> (\<exists>Pi h1 RX RY cov.
         py_index (fs_P sel (fs_next sel h (fst st))) (int i) = Inr Pi
         \<and> residualize h X Y n Pi = (h1, RX, RY, cov)
         \<and> fst (fs_iteration pr sel X Y n sigma exact burnin ndraw i h st) = standardize h1 RX)"
  by (cases st) (auto simp: fs_iteration_def Let_def split: sum.splits prod.splits)


lemma list_penultimate:
  assumes "Ps \<noteq> []"
  shows "None # map Some (Ps @ [P]) = (None # map Some (butlast Ps)) @ [Some (last Ps), Some P]"
proof -
  from assms have "map Some (Ps @ [P]) = map Some ((butlast Ps @ [last Ps]) @ [P])" by simp
  also have "\<dots> = map Some (butlast Ps) @ [Some (last Ps), Some P]"
    by (simp only: map_append list.map append_assoc append_Cons append_Nil)
  finally show ?thesis by simp
qed

lemma iteration_shapes:
  assumes inv: "loop_invariant sel X Y n i h FS" and contract: "selector_contract sel"
  obtains Pi h1 RX RY cov where
    "py_index (fs_P sel (fs_next sel h FS)) (int i) = Inr Pi"
    and "residualize h X Y n Pi = (h1, RX, RY, cov)"
    and "length (vecs (standardize h1 RX) ! RY) = nrows (mats (standardize h1 RX) ! RX)"
    and "1 \<le> ncols (mats (standardize h1 RX) ! RX)"
    and "loop_invariant sel X Y n (Suc i) (standardize h1 RX) (fs_next sel h FS)"
    and "0 < i \<Longrightarrow> \<exists>P. py_index (fs_P sel (fs_next sel h FS)) (- 2) = Inr (Some P)"
    and "i = 0 \<Longrightarrow> Pi = None"
proof -
  let ?FS = "fs_next sel h FS"
  from inv obtain Ps
    where X: "X < length (mats h)" and Y: "Y < length (vecs h)"
      and rows: "nrows (mats h ! X) = n" and cols: "1 \<le> ncols (mats h ! X)"
      and len: "length (vecs h ! Y) = n"
      and Ps: "fs_P sel FS = None # map Some Ps" "length Ps = i" "\<forall>Q\<in>set Ps. shape_preserving Q"
    unfolding loop_invariant_def by (elim conjE exE)
  from contract have "\<exists>P. fs_P sel ?FS = fs_P sel FS @ [Some P] \<and> shape_preserving P"
    unfolding selector_contract_def by simp
  then obtain P
    where "fs_P sel ?FS = fs_P sel FS @ [Some P]" and P: "shape_preserving P"
    by (elim conjE exE)
  with Ps have list: "fs_P sel ?FS = None # map Some (Ps @ [P])" by simp
  have "length (Ps @ [P]) = Suc i" using Ps(2) by simp
  moreover have "\<forall>Q\<in>set (Ps @ [P]). shape_preserving Q" using Ps(3) P by simp
  ultimately have later: "\<exists>Ps'. fs_P sel ?FS = None # map Some Ps' \<and> length Ps' = Suc i
                 \<and> (\<forall>Q\<in>set Ps'. shape_preserving Q)"
    using list by (intro exI [of _ "Ps @ [P]"] conjI)
  show ?thesis
  proof (cases i)
    case 0
    have idx: "py_index (fs_P sel ?FS) (int i) = Inr None"
      unfolding list 0 by (simp add: py_index_def)
    have res: "residualize h X Y n None = (h, X, Y, None)" by simp
    have mat: "mats (standardize h X) ! X = standardized (mats h ! X)"
      using X by (rule standardize_same)
    have inv': "loop_invariant sel X Y n (Suc i) (standardize h X) ?FS"
      unfolding loop_invariant_def
    proof (intro conjI)
      show "X < length (mats (standardize h X))" using X by simp
      show "Y < length (vecs (standardize h X))" using Y by simp
      show "nrows (mats (standardize h X) ! X) = n" unfolding mat using rows by simp
      show "1 \<le> ncols (mats (standardize h X) ! X)" unfolding mat using cols by simp
      show "length (vecs (standardize h X) ! Y) = n" using len by simp
      show "\<exists>Ps. fs_P sel ?FS = None # map Some Ps \<and> length Ps = Suc i
                 \<and> (\<forall>Q\<in>set Ps. shape_preserving Q)" by (rule later)
    qed
    show ?thesis
    proof (rule that [OF idx res _ _ inv'])
      show "length (vecs (standardize h X) ! Y) = nrows (mats (standardize h X) ! X)"
        unfolding mat using rows len by simp
      show "1 \<le> ncols (mats (standardize h X) ! X)"
        unfolding mat using cols by simp
      show "\<exists>P. py_index (fs_P sel ?FS) (- 2) = Inr (Some P)" if "0 < i"
        using that 0 by simp
      show "None = None" if "i = 0" by simp
    qed
  next
    case (Suc k)
    with Ps(2) have k: "k < length Ps" by simp
    define Q where "Q = Ps ! k"
    from k Ps(3) have Q: "shape_preserving Q" by (simp add: Q_def)
    have "i < length (fs_P sel ?FS)" unfolding list using Ps(2) by simp
    then have "py_index (fs_P sel ?FS) (int i) = Inr (fs_P sel ?FS ! i)"
      by (rule py_index_nonneg)
    also have "fs_P sel ?FS ! i = Some Q"
      unfolding list Suc using k by (simp add: nth_append Q_def)
    finally have idx: "py_index (fs_P sel ?FS) (int i) = Inr (Some Q)" .
    define M where "M = mat_sub (mats h ! X) (apply_mat Q (mats h ! X))"
    define y where "y = map2 (-) (vecs h ! Y) (apply_vec Q (vecs h ! Y))"
    define h1 where "h1 = h\<lparr>mats := mats h @ [M], vecs := vecs h @ [y]\<rparr>"
    define cov where "cov = mat_sub (identity n) (mat_mul (basis_U Q) (XT (basis_U Q)))"
    have res: "residualize h X Y n (Some Q) = (h1, length (mats h), length (vecs h), Some cov)"
      by (simp add: residualize_Some h1_def M_def y_def cov_def)
    have M_rows: "nrows M = n" and M_cols: "ncols M = ncols (mats h ! X)"
      using Q rows by (simp_all add: M_def mat_sub_shape shape_preserving_def)
    have y_len: "length y = n"
      using Q len by (simp add: y_def shape_preserving_def)
    have RX: "length (mats h) < length (mats h1)" by (simp add: h1_def)
    have mat: "mats (standardize h1 (length (mats h))) ! length (mats h) = standardized M"
      using standardize_same [OF RX] by (simp add: h1_def)
    have vec: "vecs (standardize h1 (length (mats h))) ! length (vecs h) = y"
      by (simp add: h1_def)
    have "mats (standardize h1 (length (mats h))) ! X = mats h1 ! X"
      using X by (intro standardize_other) simp
    also have "\<dots> = mats h ! X" using X by (simp add: h1_def nth_append)
    finally have keepX: "mats (standardize h1 (length (mats h))) ! X = mats h ! X" .
    have keepY: "vecs (standardize h1 (length (mats h))) ! Y = vecs h ! Y"
      using Y by (simp add: h1_def nth_append)
    have inv': "loop_invariant sel X Y n (Suc i) (standardize h1 (length (mats h))) ?FS"
      unfolding loop_invariant_def
    proof (intro conjI)
      show "X < length (mats (standardize h1 (length (mats h))))" using X by (simp add: h1_def)
      show "Y < length (vecs (standardize h1 (length (mats h))))" using Y by (simp add: h1_def)
      show "nrows (mats (standardize h1 (length (mats h))) ! X) = n" unfolding keepX by (rule rows)
      show "1 \<le> ncols (mats (standardize h1 (length (mats h))) ! X)" unfolding keepX by (rule cols)
      show "length (vecs (standardize h1 (length (mats h))) ! Y) = n" unfolding keepY by (rule len)
      show "\<exists>Ps. fs_P sel ?FS = None # map Some Ps \<and> length Ps = Suc i
                 \<and> (\<forall>Q\<in>set Ps. shape_preserving Q)" by (rule later)
    qed
    have "Ps \<noteq> []" using k by auto
    then have "fs_P sel ?FS = (None # map Some (butlast Ps)) @ [Some (last Ps), Some P]"
      unfolding list by (rule list_penultimate)
    then have pen: "py_index (fs_P sel ?FS) (- 2) = Inr (Some (last Ps))"
      by (simp only: py_index_penultimate)
    show ?thesis
    proof (rule that [OF idx res _ _ inv'])
      show "length (vecs (standardize h1 (length (mats h))) ! length (vecs h))
              = nrows (mats (standardize h1 (length (mats h))) ! length (mats h))"
        unfolding mat vec using y_len M_rows by simp
      show "1 \<le> ncols (mats (standardize h1 (length (mats h))) ! length (mats h))"
        unfolding mat using M_cols cols by simp
      show "\<exists>P. py_index (fs_P sel ?FS) (- 2) = Inr (Some P)"
        using pen by blast
      show "Some Q = None" if "i = 0" using that Suc by simp
    qed
  qed
qed

lemma fs_iteration_succeeds:
  assumes inv: "loop_invariant sel X Y n i h FS" and contract: "selector_contract sel"
    and prims: "primitives_succeed pr"
  shows "\<exists>h' FS' p q.
           fs_iteration pr sel X Y n (Some s) exact burnin ndraw i h (FS, cP, rP)
             = (h', Inr (FS', cP @ [p], rP @ [q]))
           \<and> loop_invariant sel X Y n (Suc i) h' FS'"
proof (rule iteration_shapes [OF inv contract])
  fix Pi h1 RX RY cov
  assume idx: "py_index (fs_P sel (fs_next sel h FS)) (int i) = Inr Pi"
    and res: "residualize h X Y n Pi = (h1, RX, RY, cov)"
    and len: "length (vecs (standardize h1 RX) ! RY) = nrows (mats (standardize h1 RX) ! RX)"
    and cols: "1 \<le> ncols (mats (standardize h1 RX) ! RX)"
    and inv': "loop_invariant sel X Y n (Suc i) (standardize h1 RX) (fs_next sel h FS)"
    and pen: "0 < i \<Longrightarrow> \<exists>P. py_index (fs_P sel (fs_next sel h FS)) (- 2) = Inr (Some P)"
  from covtest_returns [OF len cols prims] obtain con pval idx' sign
    where cov: "covtest pr (mats (standardize h1 RX) ! RX) (vecs (standardize h1 RX) ! RY)
                  (Some s) exact cov = Inr (con, pval, idx', sign)"
    by blast
  from reduced_step_returns [OF prims pen] obtain q
    where red: "reduced_step pr sel (fs_next sel h FS) i (vecs (standardize h1 RX) ! Y)
           (map ((*) sign) (column (mats (standardize h1 RX) ! RX) idx')) (Some s) ndraw burnin = Inr q"
    by blast
  from fs_iteration_returns [OF idx res cov red] inv' show ?thesis by blast
qed

lemma fs_iteration_type_error:
  assumes inv: "loop_invariant sel X Y n i h FS" and contract: "selector_contract sel"
  shows "\<exists>h'. fs_iteration pr sel X Y n None exact burnin ndraw i h (FS, cP, rP)
                 = (h', Inl TypeError)"
proof (rule iteration_shapes [OF inv contract])
  fix Pi h1 RX RY cov
  assume idx: "py_index (fs_P sel (fs_next sel h FS)) (int i) = Inr Pi"
    and res: "residualize h X Y n Pi = (h1, RX, RY, cov)"
    and len: "length (vecs (standardize h1 RX) ! RY) = nrows (mats (standardize h1 RX) ! RX)"
    and cols: "1 \<le> ncols (mats (standardize h1 RX) ! RX)"
  from fs_iteration_covtest_fails [OF idx res covtest_None_sigma [OF len cols]]
  show ?thesis by blast
qed

lemma fs_loop_succeeds:
  assumes contract: "selector_contract sel" and prims: "primitives_succeed pr"
  shows "loop_invariant sel X Y n i h FS \<Longrightarrow>
         \<exists>h' FS' ps qs.
           fs_loop pr sel X Y n (Some s) exact burnin ndraw [i..<i + k] h (FS, cP, rP)
             = (h', Inr (FS', cP @ ps, rP @ qs))
           \<and> length ps = k \<and> length qs = k"
proof (induction k arbitrary: i h FS cP rP)
  case 0
  then show ?case by simp
next
  case (Suc k)
  from fs_iteration_succeeds [OF Suc.prems contract prims] obtain h1 FS1 p q
    where step: "fs_iteration pr sel X Y n (Some s) exact burnin ndraw i h (FS, cP, rP)
                   = (h1, Inr (FS1, cP @ [p], rP @ [q]))"
      and inv1: "loop_invariant sel X Y n (Suc i) h1 FS1"
    by blast
  from Suc.IH [OF inv1, of "cP @ [p]" "rP @ [q]"] obtain h' FS' ps qs
    where rest: "fs_loop pr sel X Y n (Some s) exact burnin ndraw [Suc i..<Suc i + k] h1
                   (FS1, cP @ [p], rP @ [q]) = (h', Inr (FS', (cP @ [p]) @ ps, (rP @ [q]) @ qs))"
      and lens: "length ps = k" "length qs = k"
    by blast
  have "[i..<i + Suc k] = i # [Suc i..<Suc i + k]"
    by (simp add: upt_conv_Cons)
  then have "fs_loop pr sel X Y n (Some s) exact burnin ndraw [i..<i + Suc k] h (FS, cP, rP)
               = (h', Inr (FS', cP @ (p # ps), rP @ (q # qs)))"
    using step rest by simp
  with lens show ?case
    by (intro exI [of _ h'] exI [of _ FS'] exI [of _ "p # ps"] exI [of _ "q # qs"]) simp
qed

lemma fs_iteration_result:
  assumes "fs_iteration pr sel X Y n sigma exact burnin ndraw i h (FS, cP, rP) = (h', r)"
  shows "(h' = h \<and> (\<exists>e. r = Inl e))
         \<or> (\<exists>Pi h1 RX RY cov.
               py_index (fs_P sel (fs_next sel h FS)) (int i) = Inr Pi
               \<and> residualize h X Y n Pi = (h1, RX, RY, cov)
               \<and> h' = standardize h1 RX
               \<and> ((\<exists>e. r = Inl e)
                    \<or> (\<exists>p q. r = Inr (fs_next sel h FS, cP @ [p], rP @ [q]))))"
  using assms
  by (auto simp: fs_iteration_def Let_def split: sum.splits prod.splits)



lemma fs_iteration_appends:
  assumes "fs_iteration pr sel X Y n sigma exact burnin ndraw i h (FS, cP, rP)
             = (h', Inr (FS', cP', rP'))"
  shows "\<exists>p q. cP' = cP @ [p] \<and> rP' = rP @ [q]"
  using fs_iteration_result [OF assms] by auto


lemma fs_loop_lengths:
  "fs_loop pr sel X Y n sigma exact burnin ndraw steps h (FS, cP, rP) = (h', Inr (FS', cP', rP'))
     \<Longrightarrow> length cP' = length cP + length steps \<and> length rP' = length rP + length steps"
proof (induction steps arbitrary: h FS cP rP)
  case Nil
  then show ?case by simp
next
  case (Cons i steps)
  obtain h1 r1 where it: "fs_iteration pr sel X Y n sigma exact burnin ndraw i h (FS, cP, rP) = (h1, r1)"
    by (cases "fs_iteration pr sel X Y n sigma exact burnin ndraw i h (FS, cP, rP)")
  show ?case
  proof (cases r1)
    case (Inl e)
    with Cons.prems it show ?thesis by simp
  next
    case (Inr st1)
    obtain FS1 cP1 rP1 where st1: "st1 = (FS1, cP1, rP1)" by (cases st1)
    from it Inr st1 have it': "fs_iteration pr sel X Y n sigma exact burnin ndraw i h (FS, cP, rP)
        = (h1, Inr (FS1, cP1, rP1))" by simp
    from fs_iteration_appends [OF it'] obtain p q where "cP1 = cP @ [p]" "rP1 = rP @ [q]" by blast
    moreover from Cons.prems it' have
      "fs_loop pr sel X Y n sigma exact burnin ndraw steps h1 (FS1, cP1, rP1) = (h', Inr (FS', cP', rP'))"
      by simp
    from Cons.IH [OF this] have "length cP' = length cP1 + length steps"
      "length rP' = length rP1 + length steps" by simp_all
    ultimately show ?thesis by simp
  qed
qed


lemma initial_invariant:
  assumes "X < length (mats h)" and "Y < length (vecs h)"
    and "well_shaped (mats h ! X) (vecs h ! Y)" and "selector_contract sel"
  shows "loop_invariant sel X Y (nrows (mats h ! X)) 0 h (forward_stepwise sel h X Y)"
proof -
  from assms(4) have "fs_P sel (forward_stepwise sel h X Y) = None # map Some []"
    unfolding selector_contract_def by simp
  then have "\<exists>Ps. fs_P sel (forward_stepwise sel h X Y) = None # map Some Ps \<and> length Ps = 0
               \<and> (\<forall>P\<in>set Ps. shape_preserving P)"
    by (intro exI [of _ "[]"]) simp
  with assms(1-3) show ?thesis
    unfolding loop_invariant_def well_shaped_def by simp
qed

lemma example_projection_shape: "shape_preserving example_projection"
proof -
  have "nrows (apply_mat example_projection M) = nrows M
        \<and> ncols (apply_mat example_projection M) = ncols M" for M
    by (cases M) (simp_all add: example_projection_def nrows_def ncols_def)
  moreover have "length (apply_vec example_projection v) = length v" for v
    by (cases v) (simp_all add: example_projection_def)
  ultimately show ?thesis unfolding shape_preserving_def by blast
qed

lemma example_selector_contract: "selector_contract example_selector"
proof -
  have "fs_P example_selector (forward_stepwise example_selector h X Y) = [None]" for h X Y
    by (simp add: example_selector_def)
  moreover have "\<exists>P. fs_P example_selector (fs_next example_selector h FS)
                     = fs_P example_selector FS @ [Some P] \<and> shape_preserving P" for h FS
    using example_projection_shape
    by (intro exI [of _ example_projection]) (simp add: example_selector_def replicate_append_same)
  ultimately show ?thesis unfolding selector_contract_def by blast
qed

lemma example_primitives_succeed: "primitives_succeed example_primitives"
  unfolding primitives_succeed_def example_primitives_def
  by (intro conjI allI exI) (simp_all only: primitives.simps)








section \<open>The claims\<close>

subsection \<open>C1: the region of the constraint\<close>

text \<open>
  Claim C1, as amended. Let \<open>covtest\<close> return the constraint \<open>con\<close> with \<open>idx\<close> and \<open>sign\<close>
  on a well-shaped pair \<open>(X, Y)\<close>, and let \<open>z\<close> be a response vector. Then \<open>z\<close> lies in the
  region of \<open>con\<close> exactly when, for every column \<open>j \<noteq> idx\<close>, both
  \<open>X\<^sub>j \<cdot> z - sign * X\<^sub>i\<^sub>d\<^sub>x \<cdot> z \<le> 0\<close> and \<open>- X\<^sub>j \<cdot> z - sign * X\<^sub>i\<^sub>d\<^sub>x \<cdot> z \<le> 0\<close>, and
  \<open>- sign * X\<^sub>i\<^sub>d\<^sub>x \<cdot> z \<le> 0\<close>. The region contains every \<open>z\<close> at which column \<open>idx\<close> with
  sign \<open>sign\<close> is selected again, and every \<open>z\<close> at which all these inequalities are
  strict is one at which column \<open>idx\<close> with sign \<open>sign\<close> is selected again.
\<close>

theorem covtest_region_characterisation:
  assumes "well_shaped X Y"
    and "length z = nrows X"
    and "covtest pr X Y sigma exact cov = Inr (con, pvalue, idx, sign)"
  shows "(in_region con z \<longleftrightarrow>
            (\<forall>j<ncols X. j \<noteq> idx \<longrightarrow>
               dot (column X j) z - sign * dot (column X idx) z \<le> 0
               \<and> - dot (column X j) z - sign * dot (column X idx) z \<le> 0)
            \<and> - sign * dot (column X idx) z \<le> 0)
         \<and> (selection_event X z = Inr (idx, sign) \<longrightarrow> in_region con z)
         \<and> ((\<forall>j<ncols X. j \<noteq> idx \<longrightarrow>
               dot (column X j) z - sign * dot (column X idx) z < 0
               \<and> - dot (column X j) z - sign * dot (column X idx) z < 0)
              \<and> - sign * dot (column X idx) z < 0
             \<longrightarrow> selection_event X z = Inr (idx, sign))"
proof -
  note D = covtestD [OF assms(3)]
  note E = selection_eventD [OF D(1)]
  let ?d = "dot (column X idx) z"
  have off: "offset con = replicate (length (linear_part con)) 0"
    using D(2,3) by simp
  have region: "in_region con z \<longleftrightarrow>
            (\<forall>j<ncols X. j \<noteq> idx \<longrightarrow>
               dot (column X j) z - sign * ?d \<le> 0 \<and> - dot (column X j) z - sign * ?d \<le> 0)
            \<and> - sign * ?d \<le> 0"
    using in_region_zero_offset [OF off, of z] selector_region [of X idx sign z] D(2) by simp
  have again: "in_region con z" if sel: "selection_event X z = Inr (idx, sign)"
  proof -
    note F = selection_eventD [OF sel]
    have top: "sign * ?d = \<bar>?d\<bar>"
      unfolding F(3) by (simp add: abs_sgn mult.commute)
    have "dot (column X j) z - sign * ?d \<le> 0 \<and> - dot (column X j) z - sign * ?d \<le> 0"
      if "j < ncols X" for j
      using F(4) that unfolding top by (auto simp: abs_le_iff)
    moreover have "- sign * ?d \<le> 0" using top by simp
    ultimately show ?thesis unfolding region by blast
  qed
  have interior: "selection_event X z = Inr (idx, sign)"
    if strict: "\<forall>j<ncols X. j \<noteq> idx \<longrightarrow>
               dot (column X j) z - sign * ?d < 0 \<and> - dot (column X j) z - sign * ?d < 0"
      and pos: "- sign * ?d < 0"
  proof -
    from pos have pos': "0 < sign * ?d" by simp
    have sign_cases: "sign = - 1 \<or> sign = 0 \<or> sign = 1"
      unfolding E(3) by (simp add: sgn_if)
    with pos' have sgn: "sgn ?d = sign" and top: "sign * ?d = \<bar>?d\<bar>"
      by (auto simp: sgn_if)
    have "\<forall>k<ncols X. k \<noteq> idx \<longrightarrow> \<bar>dot (column X k) z\<bar> < \<bar>?d\<bar>"
      using strict unfolding top by (auto simp: abs_less_iff)
    from selection_event_unique [OF assms(2) E(2) this] sgn show ?thesis by simp
  qed
  from region again interior show ?thesis by blast
qed


theorem covtest_region_characterisation_witness:
  "well_shaped [[1, 2], [3, - 4]] [1, 2]
   \<and> covtest example_primitives [[1, 2], [3, - 4]] [1, 2] (Some 1) True None
       = Inr (\<lparr>linear_part = [[1, - 7], [- 3, 1], [- 2, - 6]], offset = [0, 0, 0],
               covariance = [[1, 0], [0, 1]]\<rparr>, 1 / 2, 0, 1)
   \<and> in_region \<lparr>linear_part = [[1, - 7], [- 3, 1], [- 2, - 6]], offset = [0, 0, 0],
               covariance = [[1, 0], [0, 1]]\<rparr> [2, 3]
   \<and> selection_event [[1, 2], [3, - 4]] [2, 3] = Inr (0, 1)"
proof -
  let ?X = "[[1, 2], [3, - 4]] :: mat"
  let ?con = "\<lparr>linear_part = [[1, - 7], [- 3, 1], [- 2, - 6]], offset = [0, 0, 0],
               covariance = [[1, 0], [0, 1]]\<rparr>"
  have shaped: "well_shaped ?X [1, 2]"
    by (simp add: model_defs)
  have len: "length [2, 3 :: real] = nrows ?X"
    by (simp add: nrows_def)
  have run: "covtest example_primitives ?X [1, 2] (Some 1) True None = Inr (?con, 1 / 2, 0, 1)"
    by (simp add: model_defs)
  have cols: "ncols ?X = 2" by (simp add: ncols_def)
  have strict: "(\<forall>j<ncols ?X. j \<noteq> 0 \<longrightarrow>
               dot (column ?X j) [2, 3] - 1 * dot (column ?X 0) [2, 3] < 0
               \<and> - dot (column ?X j) [2, 3] - 1 * dot (column ?X 0) [2, 3] < 0)
              \<and> - 1 * dot (column ?X 0) [2, 3] < 0"
    unfolding cols by (auto simp: less_Suc_eq numeral_2_eq_2 column_def)
  note T = covtest_region_characterisation [OF shaped len run]
  from T strict have again: "selection_event ?X [2, 3] = Inr (0, 1)" by blast
  from T again have "in_region ?con [2, 3]" by blast
  with shaped run again show ?thesis by simp
qed

text \<open>
  As stated, with the region equal to the set of responses that select \<open>(idx, sign)\<close>
  again, the claim fails on the boundary of the region: with \<open>X = [[1]]\<close> and \<open>Y = [1]\<close>
  the region is \<open>{z. - 2 * z \<le> 0}\<close>, which contains \<open>z = 0\<close>, where the selected sign
  is \<open>0\<close> and not \<open>1\<close>.
\<close>

theorem covtest_region_counterexample:
  "well_shaped [[1]] [1]
   \<and> covtest example_primitives [[1]] [1] (Some 1) True None
       = Inr (\<lparr>linear_part = [[- 2]], offset = [0], covariance = [[1]]\<rparr>, 1 / 2, 0, 1)
   \<and> in_region \<lparr>linear_part = [[- 2]], offset = [0], covariance = [[1]]\<rparr> [0]
   \<and> selection_event [[1]] [0] = Inr (0, 0)
   \<and> selection_event [[1]] [0] \<noteq> Inr (0, 1)"
  by (simp add: model_defs)

subsection \<open>C2: the selection rule\<close>

text \<open>
  Claim C2. Whenever \<open>covtest\<close> returns on a well-shaped pair \<open>(X, Y)\<close> and one column
  \<open>j\<close> has a correlation \<open>X\<^sub>j \<cdot> Y\<close> that is nonzero and strictly larger in magnitude than
  that of every other column, the returned \<open>idx\<close> is \<open>j\<close> and the returned \<open>sign\<close> is the
  sign of \<open>X\<^sub>i\<^sub>d\<^sub>x \<cdot> Y\<close>, which is \<open>1\<close> or \<open>-1\<close>.
\<close>

theorem covtest_selects_argmax:
  assumes "well_shaped X Y"
    and "covtest pr X Y sigma exact cov = Inr (con, pvalue, idx, sign)"
    and "j < ncols X"
    and "\<forall>k<ncols X. k \<noteq> j \<longrightarrow> \<bar>dot (column X k) Y\<bar> < \<bar>dot (column X j) Y\<bar>"
    and "dot (column X j) Y \<noteq> 0"
  shows "idx = j \<and> sign = sgn (dot (column X idx) Y) \<and> \<bar>sign\<bar> = 1"
proof -
  note D = covtestD [OF assms(2)]
  have "length Y = nrows X" using assms(1) by (simp add: well_shaped_def)
  then have "selection_event X Y = Inr (j, sgn (dot (column X j) Y))"
    using assms(3,4) by (rule selection_event_unique)
  with D(1) have "idx = j" and "sign = sgn (dot (column X j) Y)" by auto
  with assms(5) show ?thesis by (simp add: abs_sgn_eq)
qed

theorem covtest_selects_argmax_witness:
  "well_shaped [[1, 2], [3, - 4]] [1, 2]
   \<and> covtest example_primitives [[1, 2], [3, - 4]] [1, 2] (Some 1) True None
       = Inr (\<lparr>linear_part = [[1, - 7], [- 3, 1], [- 2, - 6]], offset = [0, 0, 0],
               covariance = [[1, 0], [0, 1]]\<rparr>, 1 / 2, 0, 1)
   \<and> dot (column [[1, 2], [3, - 4]] 0) [1, 2] = 7
   \<and> dot (column [[1, 2], [3, - 4]] 1) [1, 2] = - 6
   \<and> (0::nat) = 0 \<and> (1::real) = sgn (dot (column [[1, 2], [3, - 4]] 0) [1, 2])"
proof -
  have shaped: "well_shaped [[1, 2], [3, - 4]] [1, 2]"
    by (simp add: model_defs)
  have run: "covtest example_primitives [[1, 2], [3, - 4]] [1, 2] (Some 1) True None
       = Inr (\<lparr>linear_part = [[1, - 7], [- 3, 1], [- 2, - 6]], offset = [0, 0, 0],
               covariance = [[1, 0], [0, 1]]\<rparr>, 1 / 2, 0, 1)"
    by (simp add: model_defs)
  have z0: "dot (column [[1, 2], [3, - 4]] 0) [1, 2] = 7"
    and z1: "dot (column [[1, 2], [3, - 4]] 1) [1, 2] = - 6"
    by (simp_all add: column_def)
  have cols: "ncols [[1, 2], [3, - 4]] = 2" by (simp add: ncols_def)
  have j: "0 < ncols [[1, 2], [3, - 4]]" by (simp add: cols)
  have uniq: "\<forall>k<ncols [[1, 2], [3, - 4]]. k \<noteq> 0 \<longrightarrow>
      \<bar>dot (column [[1, 2], [3, - 4]] k) [1, 2]\<bar> < \<bar>dot (column [[1, 2], [3, - 4]] 0) [1, 2]\<bar>"
    unfolding cols by (auto simp: less_Suc_eq numeral_2_eq_2 column_def)
  have nz: "dot (column [[1, 2], [3, - 4]] 0) [1, 2] \<noteq> 0" by (simp add: z0)
  from covtest_selects_argmax [OF shaped run j uniq nz] shaped run z0 z1 show ?thesis
    by simp
qed

subsection \<open>C3: the observed response lies in the region\<close>

text \<open>
  Claim C3. Whenever \<open>covtest\<close> returns a constraint on a well-shaped pair \<open>(X, Y)\<close>, the
  observed \<open>Y\<close> lies in its region: every row \<open>a\<close> of the matrix it built has
  \<open>a \<cdot> Y \<le> 0\<close>.
\<close>

theorem covtest_observed_in_region:
  assumes "well_shaped X Y"
    and "covtest pr X Y sigma exact cov = Inr (con, pvalue, idx, sign)"
  shows "in_region con Y \<and> (\<forall>a\<in>set (linear_part con). dot a Y \<le> 0)"
proof -
  note D = covtestD [OF assms(2)]
  note E = selection_eventD [OF D(1)]
  have off: "offset con = replicate (length (linear_part con)) 0"
    using D(2,3) by simp
  have top: "sign * dot (column X idx) Y = \<bar>dot (column X idx) Y\<bar>"
    unfolding E(3) by (simp add: abs_sgn mult.commute)
  have "dot (column X j) Y - sign * dot (column X idx) Y \<le> 0
        \<and> - dot (column X j) Y - sign * dot (column X idx) Y \<le> 0" if "j < ncols X" for j
    using E(4) that unfolding top by (auto simp: abs_le_iff)
  moreover have "- sign * dot (column X idx) Y - sign * dot (column X idx) Y \<le> 0"
    using top by simp
  ultimately have "\<forall>a\<in>set (selector_matrix X idx sign). dot a Y \<le> 0"
    unfolding selector_region by blast
  then show ?thesis
    using D(2) in_region_zero_offset [OF off] by simp
qed

theorem covtest_observed_in_region_witness:
  "well_shaped [[1, 2], [3, - 4]] [1, 2]
   \<and> covtest example_primitives [[1, 2], [3, - 4]] [1, 2] (Some 1) True None
       = Inr (\<lparr>linear_part = [[1, - 7], [- 3, 1], [- 2, - 6]], offset = [0, 0, 0],
               covariance = [[1, 0], [0, 1]]\<rparr>, 1 / 2, 0, 1)
   \<and> in_region \<lparr>linear_part = [[1, - 7], [- 3, 1], [- 2, - 6]], offset = [0, 0, 0],
               covariance = [[1, 0], [0, 1]]\<rparr> [1, 2]"
proof -
  have shaped: "well_shaped [[1, 2], [3, - 4]] [1, 2]"
    by (simp add: model_defs)
  have run: "covtest example_primitives [[1, 2], [3, - 4]] [1, 2] (Some 1) True None
       = Inr (\<lparr>linear_part = [[1, - 7], [- 3, 1], [- 2, - 6]], offset = [0, 0, 0],
               covariance = [[1, 0], [0, 1]]\<rparr>, 1 / 2, 0, 1)"
    by (simp add: model_defs)
  from covtest_observed_in_region [OF shaped run] shaped run show ?thesis by simp
qed

subsection \<open>C4: reduced\_covtest conditions on the region of covtest\<close>




subsection \<open>C5: the approximate p-value\<close>

text \<open>
  Claim C5. On the approximate path (\<open>exact = False\<close>), with a bounds primitive whose
  limits bracket the observed statistic and whose scale is not zero, the p-value that
  \<open>covtest\<close> returns is \<open>exp (- L1 * (L1 - L2) / S\<^sup>2)\<close> for the limits \<open>L2\<close>, \<open>L1\<close> and the
  scale \<open>S\<close> that the primitive returned, whatever the upper limit is, and it lies in
  \<open>[0, 1]\<close>.
\<close>

theorem covtest_approximate_pvalue_in_unit_interval:
  assumes "well_shaped X Y"
    and "bounds_contract pr"
    and "covtest pr X Y sigma False cov = Inr (con, pvalue, idx, sign)"
  shows "(\<exists>L2 L1 upper S.
            bounds pr con (map ((*) sign) (column X idx)) Y = Inr (L2, L1, upper, S)
            \<and> pvalue = exp (- L1 * (L1 - L2) / S ^ 2))
         \<and> 0 \<le> pvalue \<and> pvalue \<le> 1"
proof -
  let ?eta = "map ((*) sign) (column X idx)"
  note D = covtestD [OF assms(3)]
  note E = selection_eventD [OF D(1)]
  from assms(3) obtain L2 L1 upper S
    where b: "bounds pr con ?eta Y = Inr (L2, L1, upper, S)"
      and p: "pvalue = exp (- L1 * (L1 - L2) / S ^ 2)"
    by (auto simp: covtest_def Let_def split: sum.splits option.splits prod.splits)
  from assms(2) b have lo: "L2 \<le> dot ?eta Y" and hi: "dot ?eta Y \<le> L1" and S: "S \<noteq> 0"
    unfolding bounds_contract_def by blast+
  have "dot ?eta Y = \<bar>dot (column X idx) Y\<bar>"
    unfolding E(3) by (simp add: dot_scale abs_sgn mult.commute)
  then have "0 \<le> dot ?eta Y" by simp
  with lo hi have "0 \<le> L1" and "0 \<le> L1 - L2" by simp_all
  then have "0 \<le> L1 * (L1 - L2)" by (rule mult_nonneg_nonneg)
  moreover from S have "0 < S ^ 2" by simp
  ultimately have "0 \<le> L1 * (L1 - L2) / S ^ 2" by simp
  then have "- L1 * (L1 - L2) / S ^ 2 \<le> 0" by simp
  then have "pvalue \<le> 1" unfolding p by (simp only: exp_le_one_iff)
  moreover have "0 \<le> pvalue" unfolding p by simp
  ultimately show ?thesis using b p by blast
qed

theorem covtest_approximate_pvalue_witness:
  "well_shaped [[1, 2], [3, - 4]] [1, 2]
   \<and> bounds_contract example_primitives
   \<and> covtest example_primitives [[1, 2], [3, - 4]] [1, 2] (Some 1) False None
       = Inr (\<lparr>linear_part = [[1, - 7], [- 3, 1], [- 2, - 6]], offset = [0, 0, 0],
               covariance = [[1, 0], [0, 1]]\<rparr>, exp (- 7), 0, 1)
   \<and> 0 \<le> exp (- 7 :: real) \<and> exp (- 7 :: real) \<le> 1"
proof -
  have shaped: "well_shaped [[1, 2], [3, - 4]] [1, 2]"
    by (simp add: model_defs)
  have contract: "bounds_contract example_primitives"
    by (simp add: bounds_contract_def example_primitives_def)
  have run: "covtest example_primitives [[1, 2], [3, - 4]] [1, 2] (Some 1) False None
       = Inr (\<lparr>linear_part = [[1, - 7], [- 3, 1], [- 2, - 6]], offset = [0, 0, 0],
               covariance = [[1, 0], [0, 1]]\<rparr>, exp (- 7), 0, 1)"
    by (simp add: model_defs)
  from covtest_approximate_pvalue_in_unit_interval [OF shaped contract run] shaped contract run
  show ?thesis by blast
qed

subsection \<open>C6: the number of iterations\<close>

text \<open>
  Claim C6. Every iteration of the loop that completes appends one p-value to each of
  the two lists, and nothing leaves the loop but an error or the end of
  \<^verbatim>\<open>range(nstep)\<close>: a run of \<open>forward_step\<close> that returns, returns two lists of length
  \<open>nstep\<close> (none for a negative \<open>nstep\<close>). For \<open>nstep \<ge> 1\<close>, a known \<open>sigma\<close>, a design with
  \<open>n \<ge> 1\<close> rows and \<open>p \<ge> 1\<close> columns, a response of length \<open>n\<close>, a selector that keeps its
  contract and primitives that do not fail, the run does return, with two lists of
  length exactly \<open>nstep\<close>.
\<close>

theorem forward_step_runs_nstep_iterations:
  "(forward_step pr sel h X Y sigma nstep exact burnin ndraw = (h', Inr (covtest_P, reduced_P))
      \<longrightarrow> length covtest_P = nat nstep \<and> length reduced_P = nat nstep)
   \<and> (1 \<le> nstep \<and> X < length (mats h) \<and> Y < length (vecs h)
        \<and> well_shaped (mats h ! X) (vecs h ! Y)
        \<and> selector_contract sel \<and> primitives_succeed pr
      \<longrightarrow> (\<exists>h'' ps qs.
             forward_step pr sel h X Y (Some s) nstep exact burnin ndraw = (h'', Inr (ps, qs))
             \<and> int (length ps) = nstep \<and> int (length qs) = nstep))"
proof -
  let ?n = "nrows (mats h ! X)"
  let ?FS = "forward_stepwise sel h X Y"
  have partial: "length covtest_P = nat nstep \<and> length reduced_P = nat nstep"
    if run: "forward_step pr sel h X Y sigma nstep exact burnin ndraw
               = (h', Inr (covtest_P, reduced_P))"
  proof -
    from run obtain FS' where "fs_loop pr sel X Y ?n sigma exact burnin ndraw [0..<nat nstep] h
        (?FS, [], []) = (h', Inr (FS', covtest_P, reduced_P))"
      by (auto simp: forward_step_def Let_def split: prod.splits sum.splits)
    from fs_loop_lengths [OF this] show ?thesis by simp
  qed
  have total: "\<exists>h'' ps qs.
             forward_step pr sel h X Y (Some s) nstep exact burnin ndraw = (h'', Inr (ps, qs))
             \<and> int (length ps) = nstep \<and> int (length qs) = nstep"
    if pre: "1 \<le> nstep \<and> X < length (mats h) \<and> Y < length (vecs h)
        \<and> well_shaped (mats h ! X) (vecs h ! Y)
        \<and> selector_contract sel \<and> primitives_succeed pr"
  proof -
    from pre have inv: "loop_invariant sel X Y ?n 0 h ?FS"
      by (intro initial_invariant) simp_all
    from pre have contract: "selector_contract sel" and prims: "primitives_succeed pr"
      by simp_all
    from fs_loop_succeeds [OF contract prims inv, where s = s and exact = exact
        and burnin = burnin and ndraw = ndraw and k = "nat nstep" and cP = "[]" and rP = "[]"]
    obtain h'' FS' ps qs
      where loop: "fs_loop pr sel X Y ?n (Some s) exact burnin ndraw [0..<nat nstep] h (?FS, [], [])
                     = (h'', Inr (FS', ps, qs))"
        and lens: "length ps = nat nstep" "length qs = nat nstep"
      by auto
    from loop have "forward_step pr sel h X Y (Some s) nstep exact burnin ndraw = (h'', Inr (ps, qs))"
      by (simp add: forward_step_def Let_def)
    moreover from lens pre have "int (length ps) = nstep" "int (length qs) = nstep"
      by simp_all
    ultimately show ?thesis by blast
  qed
  from partial total show ?thesis by blast
qed

theorem forward_step_runs_nstep_iterations_witness:
  "(1::int) \<le> 2
   \<and> well_shaped [[1, 2], [3, 4]] [1, 2]
   \<and> selector_contract example_selector \<and> primitives_succeed example_primitives
   \<and> snd (forward_step example_primitives example_selector
            \<lparr>mats = [[[1, 2], [3, 4]]], vecs = [[1, 2]]\<rparr> 0 0 (Some 1) 2 True 1000 5000)
       = Inr ([1 / 2, 1 / 2], [1, 1])
   \<and> (\<exists>h'' ps qs.
         forward_step example_primitives example_selector
            \<lparr>mats = [[[1, 2], [3, 4]]], vecs = [[1, 2]]\<rparr> 0 0 (Some 1) 2 True 1000 5000
           = (h'', Inr (ps, qs))
         \<and> int (length ps) = 2 \<and> int (length qs) = 2)"
proof -
  let ?h = "\<lparr>mats = [[[1, 2], [3, 4]]], vecs = [[1, 2]]\<rparr>"
  have shaped: "well_shaped [[1, 2], [3, 4]] [1, 2]"
    by (simp add: model_defs)
  have pre: "(1::int) \<le> 2 \<and> (0::nat) < length (mats ?h) \<and> (0::nat) < length (vecs ?h)
        \<and> well_shaped (mats ?h ! 0) (vecs ?h ! 0)
        \<and> selector_contract example_selector \<and> primitives_succeed example_primitives"
    using shaped example_selector_contract example_primitives_succeed by simp
  have steps: "[0..<nat 2] = [0, 1]" by (simp add: upt_rec)
  have run: "snd (forward_step example_primitives example_selector ?h 0 0 (Some 1) 2 True 1000 5000)
      = Inr ([1 / 2, 1 / 2], [1, 1])"
    unfolding forward_step_def steps by (simp add: model_defs)
  from forward_step_runs_nstep_iterations [where pr = example_primitives
      and sel = example_selector and h = ?h and X = 0 and Y = 0 and nstep = 2 and s = 1
      and exact = True and burnin = 1000 and ndraw = 5000] pre
  have "\<exists>h'' ps qs.
         forward_step example_primitives example_selector ?h 0 0 (Some 1) 2 True 1000 5000
           = (h'', Inr (ps, qs))
         \<and> int (length ps) = 2 \<and> int (length qs) = 2"
    by blast
  with shaped example_selector_contract example_primitives_succeed run show ?thesis
    by simp
qed

subsection \<open>C7: invalid sampling parameters\<close>

text \<open>
  Claim C7, as amended. \<open>reduced_covtest\<close> does not validate \<open>ndraw\<close> and \<open>burnin\<close>: it
  passes them unchanged to the Monte-Carlo sampler, after \<open>covtest\<close> has run. For all
  values of \<open>ndraw\<close> and \<open>burnin\<close>, it fails with an error exactly when \<open>covtest\<close> fails
  with this error, or \<open>covtest\<close> returns and the sampler, called with this \<open>ndraw\<close> and
  this \<open>burnin\<close>, fails with this error.
\<close>

theorem reduced_covtest_fails_only_in_collaborators:
  "reduced_covtest pr X Y ndraw burnin sigma cov = Inl e \<longleftrightarrow>
     covtest pr X Y (Some (sigma_or_1 sigma)) True cov = Inl e
     \<or> (\<exists>cone p0 idx sign.
           covtest pr X Y (Some (sigma_or_1 sigma)) True cov = Inr (cone, p0, idx, sign)
           \<and> gibbs_test pr cone Y (map ((*) sign) (column X idx)) ndraw burnin (sigma \<noteq> None)
               = Inl e)"
  unfolding reduced_covtest_def by (auto split: sum.splits prod.splits)

theorem reduced_covtest_fails_only_in_collaborators_witness:
  "reduced_covtest (example_primitives\<lparr>gibbs_test := (\<lambda>con y eta ndraw burnin known.
        if ndraw \<le> 0 then Inl (PrimitiveError 1) else Inr (1 / 4))\<rparr>)
      [[1]] [1] 0 2000 None None = Inl (PrimitiveError 1)"
proof -
  let ?pr = "example_primitives\<lparr>gibbs_test := (\<lambda>con y eta ndraw burnin known.
        if ndraw \<le> 0 then Inl (PrimitiveError 1) else Inr (1 / 4))\<rparr>"
  have "covtest ?pr [[1]] [1] (Some (sigma_or_1 None)) True None
          = Inr (\<lparr>linear_part = [[- 2]], offset = [0], covariance = [[1]]\<rparr>, 1 / 2, 0, 1)"
    by (simp add: model_defs)
  moreover have "gibbs_test ?pr \<lparr>linear_part = [[- 2]], offset = [0], covariance = [[1]]\<rparr> [1]
          (map ((*) 1) (column [[1]] 0)) 0 2000 (None \<noteq> (None :: real option))
          = Inl (PrimitiveError 1)"
    by simp
  ultimately show ?thesis
    using reduced_covtest_fails_only_in_collaborators
      [of ?pr "[[1]]" "[1]" 0 2000 None None "PrimitiveError 1"]
    by blast
qed

text \<open>
  As stated, the claim fails with a sampler that accepts every \<open>ndraw\<close> and \<open>burnin\<close>:
  the call with \<open>ndraw = 0\<close> and \<open>burnin = - 1\<close> returns.
\<close>

theorem reduced_covtest_invalid_draws_counterexample:
  "(0::int) \<le> 0 \<and> (- 1 :: int) < 0
   \<and> reduced_covtest example_primitives [[1]] [1] 0 (- 1) None None
       = Inr (\<lparr>linear_part = [[- 2]], offset = [0], covariance = [[1]]\<rparr>, 1 / 4, 0, 1)"
  by (simp add: model_defs)

subsection \<open>C8: permuting the other columns\<close>

text \<open>
  Claim C8, as amended. Let \<open>covtest\<close> return \<open>idx\<close> and \<open>sign\<close> on a well-shaped pair
  \<open>(X, Y)\<close> where the correlation of column \<open>idx\<close> is strictly larger in magnitude than
  that of every other column. Then for every permutation of the columns that leaves
  column \<open>idx\<close> in place, the selection event of the permuted design is again
  \<open>(idx, sign)\<close>, and every run of \<open>covtest\<close> on the permuted design that returns,
  returns this \<open>idx\<close> and this \<open>sign\<close>.
\<close>

theorem covtest_permutation_invariant:
  assumes "well_shaped X Y"
    and "covtest pr X Y sigma exact cov = Inr (con, pvalue, idx, sign)"
    and "is_permutation perm (ncols X)"
    and "perm ! idx = idx"
    and "\<forall>k<ncols X. k \<noteq> idx \<longrightarrow> \<bar>dot (column X k) Y\<bar> < \<bar>dot (column X idx) Y\<bar>"
  shows "selection_event (permute_columns perm X) Y = Inr (idx, sign)
         \<and> (\<forall>pr' sigma' exact' cov' con' pvalue' idx' sign'.
               covtest pr' (permute_columns perm X) Y sigma' exact' cov' = Inr (con', pvalue', idx', sign')
                 \<longrightarrow> idx' = idx \<and> sign' = sign)"
proof -
  let ?X' = "permute_columns perm X"
  note D = covtestD [OF assms(2)]
  note E = selection_eventD [OF D(1)]
  note P = is_permutationD [OF assms(3)]
  have ne: "X \<noteq> []" using assms(1) by (auto simp: well_shaped_def nrows_def)
  have cols: "ncols ?X' = ncols X" using ne P(1) by (simp add: permute_columns_ncols)
  have len: "length Y = nrows ?X'" using E(1) by simp
  have idx: "idx < ncols ?X'" using E(2) cols by simp
  have col_idx: "column ?X' idx = column X idx"
    using E(2) P(1) assms(4) by (simp add: permute_columns_column)
  have strict: "\<forall>k<ncols ?X'. k \<noteq> idx \<longrightarrow> \<bar>dot (column ?X' k) Y\<bar> < \<bar>dot (column ?X' idx) Y\<bar>"
  proof (intro allI impI)
    fix k assume k: "k < ncols ?X'" and ne_k: "k \<noteq> idx"
    from k cols P(1) have k': "k < length perm" by simp
    then have "perm ! k \<in> set perm" by simp
    then have lt: "perm ! k < ncols X" using P(2) by simp
    have "perm ! k \<noteq> perm ! idx"
      using P(3) k' E(2) P(1) ne_k by (simp add: nth_eq_iff_index_eq)
    then have "perm ! k \<noteq> idx" using assms(4) by simp
    with lt assms(5) have "\<bar>dot (column X (perm ! k)) Y\<bar> < \<bar>dot (column X idx) Y\<bar>" by simp
    then show "\<bar>dot (column ?X' k) Y\<bar> < \<bar>dot (column ?X' idx) Y\<bar>"
      using k' col_idx by (simp add: permute_columns_column)
  qed
  have ev': "selection_event ?X' Y = Inr (idx, sign)"
    using selection_event_unique [OF len idx strict] col_idx E(3) by simp
  moreover have "idx' = idx \<and> sign' = sign"
    if "covtest pr' ?X' Y sigma' exact' cov' = Inr (con', pvalue', idx', sign')"
    for pr' sigma' exact' cov' con' pvalue' idx' sign'
    using covtestD(1) [OF that] ev' by simp
  ultimately show ?thesis by blast
qed

theorem covtest_permutation_invariant_witness:
  "well_shaped [[1, 2, 0], [3, - 4, 1]] [2, - 1]
   \<and> is_permutation [2, 1, 0] (ncols [[1, 2, 0], [3, - 4, 1]])
   \<and> covtest example_primitives [[1, 2, 0], [3, - 4, 1]] [2, - 1] (Some 1) True None
       = Inr (\<lparr>linear_part = [[- 1, 7], [- 2, 5], [- 3, 1], [- 2, 3], [- 4, 8]],
               offset = [0, 0, 0, 0, 0], covariance = [[1, 0], [0, 1]]\<rparr>, 1 / 2, 1, 1)
   \<and> permute_columns [2, 1, 0] [[1, 2, 0], [3, - 4, 1]] = [[0, 2, 1], [1, - 4, 3]]
   \<and> selection_event [[0, 2, 1], [1, - 4, 3]] [2, - 1] = Inr (1, 1)"
proof -
  let ?X = "[[1, 2, 0], [3, - 4, 1]] :: mat"
  let ?Y = "[2, - 1] :: vec"
  have shaped: "well_shaped ?X ?Y"
    by (simp add: model_defs)
  have run: "covtest example_primitives ?X ?Y (Some 1) True None
       = Inr (\<lparr>linear_part = [[- 1, 7], [- 2, 5], [- 3, 1], [- 2, 3], [- 4, 8]],
               offset = [0, 0, 0, 0, 0], covariance = [[1, 0], [0, 1]]\<rparr>, 1 / 2, 1, 1)"
    by (simp add: model_defs)
  have cols: "ncols ?X = 3" by (simp add: ncols_def)
  have perm: "is_permutation [2, 1, 0] (ncols ?X)"
    unfolding cols by (simp add: is_permutation_def upt_rec)
  have fixed: "[2, 1, 0] ! 1 = (1::nat)" by simp
  have uniq: "\<forall>k<ncols ?X. k \<noteq> 1 \<longrightarrow> \<bar>dot (column ?X k) ?Y\<bar> < \<bar>dot (column ?X 1) ?Y\<bar>"
    unfolding cols by (auto simp: less_Suc_eq numeral_3_eq_3 column_def)
  have permuted: "permute_columns [2, 1, 0] ?X = [[0, 2, 1], [1, - 4, 3]]"
    by (simp add: permute_columns_def)
  from covtest_permutation_invariant [OF shaped run perm fixed uniq] shaped run perm permuted
  show ?thesis by simp
qed

text \<open>
  As stated, for every \<open>X\<close> and \<open>Y\<close>, the claim fails where two columns tie for the
  largest magnitude: with \<open>X = [[1, 1, 0]]\<close> and \<open>Y = [1]\<close> column \<open>1\<close> is selected, and
  after exchanging columns \<open>0\<close> and \<open>2\<close>, which leaves column \<open>1\<close> in place, column \<open>2\<close> is.
\<close>

theorem covtest_permutation_counterexample:
  "well_shaped [[1, 1, 0]] [1]
   \<and> is_permutation [2, 1, 0] (ncols [[1, 1, 0]])
   \<and> [2, 1, 0] ! 1 = (1::nat)
   \<and> covtest example_primitives [[1, 1, 0]] [1] (Some 1) True None
       = Inr (\<lparr>linear_part = [[0], [- 1], [- 2], [- 1], [- 2]], offset = [0, 0, 0, 0, 0],
               covariance = [[1]]\<rparr>, 1 / 2, 1, 1)
   \<and> covtest example_primitives (permute_columns [2, 1, 0] [[1, 1, 0]]) [1] (Some 1) True None
       = Inr (\<lparr>linear_part = [[- 1], [0], [- 1], [- 2], [- 2]], offset = [0, 0, 0, 0, 0],
               covariance = [[1]]\<rparr>, 1 / 2, 2, 1)"
proof -
  have "well_shaped [[1, 1, 0]] [1]"
    by (simp add: model_defs)
  moreover have "is_permutation [2, 1, 0] (ncols [[1, 1, 0]])"
    by (simp add: model_defs upt_rec)
  moreover have "[2, 1, 0] ! 1 = (1::nat)"
    by simp
  moreover have "covtest example_primitives [[1, 1, 0]] [1] (Some 1) True None
       = Inr (\<lparr>linear_part = [[0], [- 1], [- 2], [- 1], [- 2]], offset = [0, 0, 0, 0, 0],
               covariance = [[1]]\<rparr>, 1 / 2, 1, 1)"
    by (simp add: model_defs)
  moreover have "covtest example_primitives (permute_columns [2, 1, 0] [[1, 1, 0]]) [1] (Some 1) True None
       = Inr (\<lparr>linear_part = [[- 1], [0], [- 1], [- 2], [- 2]], offset = [0, 0, 0, 0, 0],
               covariance = [[1]]\<rparr>, 1 / 2, 2, 1)"
    by (simp add: model_defs)
  ultimately show ?thesis by blast
qed

subsection \<open>C9: the caller's design is standardized in place\<close>



subsection \<open>C10: an unknown noise scale\<close>




end
